theory Spec2Isabelle
  imports Complex_Main
begin

section \<open>JavaScript values\<close>

text \<open>
  The client is JavaScript. The values it handles are modelled by two datatypes.

  A number is \<open>NaN\<close>, one of the two infinities, or a finite value. Finite values are
  exact rationals: the binary rounding of IEEE doubles is not modelled, the special values
  and the sign are. The two zeros are one value (both are falsy and \<open>Math.abs\<close> maps
  both to \<open>0\<close>).

  A value is a JSON-like tree, extended with the objects that carry an identity: a
  \<open>Buffer\<close>, a stream, an \<open>UploadWithOptions\<close> wrapper (with its \<open>file\<close> and its
  \<open>options\<close>) and a fetch response. The natural number of these constructors is the
  object's address; the response of the k-th physical call has address k. A plain object
  is the list of its own enumerable properties in enumeration order. Strings are lists of
  8-bit code units.
\<close>

datatype jsnum = NaN | PInf | NInf | Fin rat

datatype js =
    JUndefined
  | JNull
  | JBool bool
  | JNum jsnum
  | JStr string
  | JArr "js list"
  | JObj "(string \<times> js) list"
  | JBuffer nat
  | JStream nat
  | JUploadWithOptions nat js js
  | JResponse nat

text \<open>ToBoolean: what \<open>if (v)\<close>, \<open>!v\<close>, \<open>a || b\<close> and \<open>a && b\<close> test.\<close>

fun truthy_num :: "jsnum \<Rightarrow> bool" where
  "truthy_num NaN = False"
| "truthy_num (Fin r) = (r \<noteq> 0)"
| "truthy_num PInf = True"
| "truthy_num NInf = True"

fun truthy :: "js \<Rightarrow> bool" where
  "truthy JUndefined = False"
| "truthy JNull = False"
| "truthy (JBool b) = b"
| "truthy (JNum n) = truthy_num n"
| "truthy (JStr s) = (s \<noteq> [])"
| "truthy (JArr xs) = True"
| "truthy (JObj kvs) = True"
| "truthy (JBuffer a) = True"
| "truthy (JStream a) = True"
| "truthy (JUploadWithOptions a f opts) = True"
| "truthy (JResponse a) = True"

section \<open>Numbers: \<open>parseFloat\<close>, \<open>Math.abs\<close>, \<open>Math.round\<close>\<close>

text \<open>
  \<open>parseFloat\<close> skips leading white space and reads the longest prefix that is a
  decimal literal: an optional sign, then \<open>Infinity\<close>, or digits with an optional
  fraction and an optional exponent. With no such prefix the result is \<open>NaN\<close>.
\<close>

definition is_ws :: "char \<Rightarrow> bool" where
  "is_ws c = (of_char c \<in> {9, 10, 11, 12, 13, 32, 160 :: nat})"

definition is_digit :: "char \<Rightarrow> bool" where
  "is_digit c = (48 \<le> (of_char c :: nat) \<and> (of_char c :: nat) \<le> 57)"

definition digits_val :: "string \<Rightarrow> nat" where
  "digits_val ds = foldl (\<lambda>a c. 10 * a + (of_char c - 48)) 0 ds"

definition pow10 :: "int \<Rightarrow> rat" where
  "pow10 e = (if 0 \<le> e then 10 ^ nat e else 1 / 10 ^ nat (- e))"

definition exponent_part :: "string \<Rightarrow> int" where
  "exponent_part s =
     (case s of
        [] \<Rightarrow> 0
      | c # r \<Rightarrow>
          if c = CHR ''e'' \<or> c = CHR ''E'' then
            (case r of
               [] \<Rightarrow> 0
             | d # r' \<Rightarrow>
                 if d = CHR ''-'' then - int (digits_val (takeWhile is_digit r'))
                 else if d = CHR ''+'' then int (digits_val (takeWhile is_digit r'))
                 else int (digits_val (takeWhile is_digit r)))
          else 0)"

definition unsigned_literal :: "string \<Rightarrow> jsnum" where
  "unsigned_literal u =
     (if take 8 u = ''Infinity'' then PInf
      else
        let ip = takeWhile is_digit u;
            r1 = dropWhile is_digit u;
            fp = (case r1 of [] \<Rightarrow> []
                  | c # r \<Rightarrow> if c = CHR ''.'' then takeWhile is_digit r else []);
            r2 = (case r1 of [] \<Rightarrow> []
                  | c # r \<Rightarrow> if c = CHR ''.'' then dropWhile is_digit r else r1)
        in if ip = [] \<and> fp = [] then NaN
           else Fin ((of_nat (digits_val ip) + of_nat (digits_val fp) / 10 ^ length fp)
                     * pow10 (exponent_part r2)))"

fun negate :: "jsnum \<Rightarrow> jsnum" where
  "negate NaN = NaN"
| "negate PInf = NInf"
| "negate NInf = PInf"
| "negate (Fin r) = Fin (- r)"

definition parseFloat :: "string \<Rightarrow> jsnum" where
  "parseFloat s =
     (case dropWhile is_ws s of
        [] \<Rightarrow> NaN
      | c # r \<Rightarrow>
          if c = CHR ''-'' then negate (unsigned_literal r)
          else if c = CHR ''+'' then unsigned_literal r
          else unsigned_literal (c # r))"

fun Math_abs :: "jsnum \<Rightarrow> jsnum" where
  "Math_abs NaN = NaN"
| "Math_abs PInf = PInf"
| "Math_abs NInf = PInf"
| "Math_abs (Fin r) = Fin \<bar>r\<bar>"

text \<open>\<open>Math.round\<close> rounds to the nearest integer, a tie towards plus infinity.\<close>

fun Math_round :: "jsnum \<Rightarrow> jsnum" where
  "Math_round (Fin r) = Fin (of_int \<lfloor>r + 1 / 2\<rfloor>)"
| "Math_round x = x"

text \<open>\<open>a || b\<close> on numbers.\<close>

definition num_or :: "jsnum \<Rightarrow> jsnum \<Rightarrow> jsnum" where
  "num_or a b = (if truthy_num a then a else b)"

fun num_times :: "jsnum \<Rightarrow> jsnum \<Rightarrow> jsnum" where
  "num_times (Fin a) (Fin b) = Fin (a * b)"
| "num_times NaN y = NaN"
| "num_times x NaN = NaN"
| "num_times (Fin a) PInf = (if a = 0 then NaN else if 0 < a then PInf else NInf)"
| "num_times (Fin a) NInf = (if a = 0 then NaN else if 0 < a then NInf else PInf)"
| "num_times PInf (Fin b) = (if b = 0 then NaN else if 0 < b then PInf else NInf)"
| "num_times NInf (Fin b) = (if b = 0 then NaN else if 0 < b then NInf else PInf)"
| "num_times PInf PInf = PInf"
| "num_times NInf NInf = PInf"
| "num_times PInf NInf = NInf"
| "num_times NInf PInf = NInf"

fun num_plus :: "jsnum \<Rightarrow> jsnum \<Rightarrow> jsnum" where
  "num_plus (Fin a) (Fin b) = Fin (a + b)"
| "num_plus NaN y = NaN"
| "num_plus x NaN = NaN"
| "num_plus PInf NInf = NaN"
| "num_plus NInf PInf = NaN"
| "num_plus PInf y = PInf"
| "num_plus NInf y = NInf"
| "num_plus x PInf = PInf"
| "num_plus x NInf = NInf"

section \<open>The retry delay\<close>

definition failBufferMS :: rat where
  "failBufferMS = 50"

text \<open>
  \<open>response.headers.get('retry-after')\<close> is a string, or \<open>null\<close> when the header is
  absent (\<open>None\<close>). \<open>parseFloat\<close> converts its argument to a string first.
\<close>

definition ToString_header :: "string option \<Rightarrow> string" where
  "ToString_header h = (case h of None \<Rightarrow> ''null'' | Some s \<Rightarrow> s)"

text \<open>
  \<^verbatim>\<open>function getRetryMS (retryAfterSeconds) {
  return Math.round((Math.abs(parseFloat(retryAfterSeconds)) || 0) * 1000) + failBufferMS
}\<close>
\<close>

definition getRetryMS :: "string option \<Rightarrow> jsnum" where
  "getRetryMS retryAfterSeconds =
     num_plus
       (Math_round
          (num_times (num_or (Math_abs (parseFloat (ToString_header retryAfterSeconds))) (Fin 0))
             (Fin 1000)))
       (Fin failBufferMS)"


section \<open>Objects, strings and errors\<close>

text \<open>A thrown value or a rejection reason.\<close>

datatype error = Error string | TypeError string | TransportFailure string

text \<open>
  What a call gives back: a synchronous throw, or a promise that is still pending (the
  retry loop has not settled within the attempts allowed), resolved or rejected.
\<close>

datatype result = Thrown error | Pending | Resolved js | Rejected error

text \<open>Decimal digits of a number: the template literal \<open>`${i}`\<close> and array indices in paths.\<close>

fun string_of_nat :: "nat \<Rightarrow> string" where
  "string_of_nat n =
     (if n < 10 then [char_of (48 + n)]
      else string_of_nat (n div 10) @ [char_of (48 + n mod 10)])"

declare string_of_nat.simps [simp del]

text \<open>\<open>obj[key] = v\<close> on the property list of a plain object: an existing key keeps its place.\<close>

fun set_prop :: "(string \<times> js) list \<Rightarrow> string \<Rightarrow> js \<Rightarrow> (string \<times> js) list" where
  "set_prop [] k v = [(k, v)]"
| "set_prop ((k', v') # rest) k v =
     (if k' = k then (k, v) # rest else (k', v') # set_prop rest k v)"

definition lookup_prop :: "(string \<times> js) list \<Rightarrow> string \<Rightarrow> js" where
  "lookup_prop kvs k = (case map_of kvs k of None \<Rightarrow> JUndefined | Some v \<Rightarrow> v)"

text \<open>
  The own enumerable properties of a value, as the spread \<open>{...v}\<close> copies them. Inherited
  properties (\<open>length\<close>, methods) are not modelled, nor are the own properties of a buffer,
  a stream or a response.
\<close>

fun own_props :: "js \<Rightarrow> (string \<times> js) list" where
  "own_props (JObj kvs) = kvs"
| "own_props (JArr xs) = zip (map string_of_nat [0..<length xs]) xs"
| "own_props (JStr s) = zip (map string_of_nat [0..<length s]) (map (\<lambda>c. JStr [c]) s)"
| "own_props (JUploadWithOptions a f opts) = [(''file'', f), (''options'', opts)]"
| "own_props v = []"

text \<open>\<open>v.key\<close>: a \<open>TypeError\<close> on \<open>null\<close> and \<open>undefined\<close>, \<open>undefined\<close> for a missing property.\<close>

definition get_prop :: "js \<Rightarrow> string \<Rightarrow> error + js" where
  "get_prop v k =
     (if v = JUndefined \<or> v = JNull
      then Inl (TypeError (''Cannot read property '' @ k @ '' of null or undefined''))
      else Inr (lookup_prop (own_props v) k))"

text \<open>The object literal \<open>{ ...base, ...v }\<close>, \<open>base\<close> given as a property list.\<close>

definition spread_into :: "(string \<times> js) list \<Rightarrow> js \<Rightarrow> (string \<times> js) list" where
  "spread_into base v = foldl (\<lambda>acc (k, x). set_prop acc k x) base (own_props v)"

text \<open>A parameter default \<open>(p = d)\<close>: taken when the argument is \<open>undefined\<close>.\<close>

definition default_to :: "js \<Rightarrow> js \<Rightarrow> js" where
  "default_to v d = (if v = JUndefined then d else v)"

text \<open>\<open>url.startsWith(base)\<close>.\<close>

definition startsWith :: "string \<Rightarrow> string \<Rightarrow> bool" where
  "startsWith s p = (take (length p) s = p)"

section \<open>Base64\<close>

text \<open>
  \<open>Buffer.from(s, 'ascii').toString('base64')\<close>: the code units of the string as bytes,
  three bytes to four characters of the standard alphabet, padded with \<open>=\<close>.
\<close>

definition b64_alphabet :: string where
  "b64_alphabet = ''ABCDEFGHIJKLMNOPQRSTUVWXYZabcdefghijklmnopqrstuvwxyz0123456789+/''"

definition b64_char :: "nat \<Rightarrow> char" where
  "b64_char n = b64_alphabet ! (n mod 64)"

fun b64_bytes :: "nat list \<Rightarrow> string" where
  "b64_bytes [] = []"
| "b64_bytes [a] = [b64_char (a div 4), b64_char ((a mod 4) * 16), CHR ''='', CHR ''='']"
| "b64_bytes [a, b] =
     [b64_char (a div 4), b64_char ((a mod 4) * 16 + b div 16), b64_char ((b mod 16) * 4),
      CHR ''='']"
| "b64_bytes (a # b # c # rest) =
     [b64_char (a div 4), b64_char ((a mod 4) * 16 + b div 16),
      b64_char ((b mod 16) * 4 + c div 64), b64_char (c mod 64)] @ b64_bytes rest"

definition base64 :: "string \<Rightarrow> string" where
  "base64 s = b64_bytes (map of_char s)"

section \<open>The client and its constructor\<close>

text \<open>
  The constructor's \<open>options\<close> argument. \<open>None\<close> is a property that is not given; the
  credentials and the overrides are strings.
\<close>

record anvil_options =
  apiKey :: "string option"
  accessToken :: "string option"
  baseURL :: "string option"
  userAgent :: "string option"

record client =
  cl_baseURL :: string
  cl_userAgent :: string
  authHeader :: string

text \<open>
  \<open>this.requestLimit\<close> and \<open>this.requestLimitMS\<close>: the constructor sets both to
  constants (production rate limit: 200 requests in 5 seconds).
\<close>

definition requestLimit :: nat where
  "requestLimit = 200"

definition requestLimitMS :: rat where
  "requestLimitMS = 5000"

definition default_baseURL :: string where
  "default_baseURL = ''https://app.useanvil.com''"

text \<open>A string option read as a condition: \<open>undefined\<close> and the empty string are falsy.\<close>

definition truthy_str :: "string option \<Rightarrow> bool" where
  "truthy_str s = (case s of None \<Rightarrow> False | Some t \<Rightarrow> t \<noteq> [])"

text \<open>
  \<^verbatim>\<open>constructor (options) {
  if (!options) throw new Error('options are required')
  this.options = { ...defaultOptions, ...options }
  const { apiKey, accessToken } = this.options
  if (!(apiKey || accessToken)) throw new Error('apiKey or accessToken required')
  this.authHeader = accessToken
    ? `Bearer ${Buffer.from(accessToken, 'ascii').toString('base64')}`
    : `Basic ${Buffer.from(`${apiKey}:`, 'ascii').toString('base64')}`
  ...\<close>
  The default user agent is \<open>`${description}/${version}`\<close> of \<open>package.json\<close>, which is
  not part of the sources: it is the parameter \<open>pkgUserAgent\<close>.
\<close>

definition anvil_constructor :: "string \<Rightarrow> anvil_options option \<Rightarrow> error + client" where
  "anvil_constructor pkgUserAgent options =
     (case options of
        None \<Rightarrow> Inl (Error ''options are required'')
      | Some opts \<Rightarrow>
          if \<not> (truthy_str (apiKey opts) \<or> truthy_str (accessToken opts))
          then Inl (Error ''apiKey or accessToken required'')
          else Inr \<lparr>
            cl_baseURL = (case baseURL opts of None \<Rightarrow> default_baseURL | Some b \<Rightarrow> b),
            cl_userAgent = (case userAgent opts of None \<Rightarrow> pkgUserAgent | Some u \<Rightarrow> u),
            authHeader =
              (if truthy_str (accessToken opts)
               then ''Bearer '' @ base64 (the (accessToken opts))
               else ''Basic '' @ base64 (the (apiKey opts) @ '':'') ) \<rparr>)"

section \<open>Requests, responses and the world\<close>

text \<open>
  A multipart form is the list of its parts, in the order of the \<open>append\<close> calls:
  field name, value, append options.
\<close>

datatype form_part = Part string js js

datatype body = BodyText js | BodyForm "form_part list"

text \<open>The options handed to \<open>fetch\<close>. \<open>fo_signal\<close>: an abort signal is attached.\<close>

record fetch_options =
  fo_method :: "string option"
  fo_headers :: "(string \<times> js) list option"
  fo_body :: "body option"
  fo_signal :: bool

text \<open>
  A fetch response: its status, \<open>headers.get\<close>, the body stream, and what \<open>buffer()\<close>
  and \<open>json()\<close> resolve to (\<open>Inl\<close>: the promise rejects, as \<open>json()\<close> does on a body that
  is not JSON). \<open>res_id\<close> is the address of the response object.
\<close>

record response =
  res_id :: nat
  res_status :: int
  res_headers_get :: "string \<Rightarrow> string option"
  res_body :: js
  res_buffer :: "error + js"
  res_json :: "error + js"

text \<open>
  Effects are recorded as a trace of events: a token taken from the rate limiter, a
  sleep of so many milliseconds, a physical call (\<open>fetch\<close> with its URL and options), a
  console warning.
\<close>

datatype event =
    RemoveTokens nat
  | Sleep jsnum
  | Fetch string fetch_options
  | ConsoleWarn string

text \<open>
  The environment: what the rate limiter reports as remaining requests at its k-th
  acquisition, and how the k-th physical call ends (\<open>Inl\<close>: \<open>fetch\<close> rejects).
\<close>

record env =
  remaining :: "nat \<Rightarrow> rat"
  transport :: "nat \<Rightarrow> error + response"

record world =
  acquired :: nat
  fetches :: nat
  trace :: "event list"

definition world0 :: world where
  "world0 = \<lparr> acquired = 0, fetches = 0, trace = [] \<rparr>"

definition emit :: "event list \<Rightarrow> world \<Rightarrow> world" where
  "emit evs w = w \<lparr> trace := trace w @ evs \<rparr>"

section \<open>Headers\<close>

text \<open>
  \<^verbatim>\<open>_addHeaders ({ options: existingOptions, headers: newHeaders }, internalOptions = {}) {
  const { headers: existingHeaders = {} } = existingOptions
  const { defaults = false } = internalOptions
  newHeaders = defaults ? newHeaders : Object.entries(newHeaders).reduce((acc, [key, val]) => {
    if (val != null) { acc[key] = val }
    return acc
  }, {})
  return { ...existingOptions, headers: { ...existingHeaders, ...newHeaders } }
}\<close>
\<close>

definition addHeaders :: "fetch_options \<Rightarrow> (string \<times> js) list \<Rightarrow> bool \<Rightarrow> fetch_options" where
  "addHeaders existingOptions newHeaders defaults =
     (let existingHeaders = (case fo_headers existingOptions of None \<Rightarrow> [] | Some h \<Rightarrow> h);
          newHeaders' =
            (if defaults then newHeaders
             else foldl (\<lambda>acc (key, val).
                           if val \<noteq> JNull \<and> val \<noteq> JUndefined then set_prop acc key val else acc)
                    [] newHeaders)
      in existingOptions \<lparr> fo_headers :=
           Some (spread_into (spread_into [] (JObj existingHeaders)) (JObj newHeaders')) \<rparr>)"

definition addDefaultHeaders :: "client \<Rightarrow> fetch_options \<Rightarrow> fetch_options" where
  "addDefaultHeaders c options =
     addHeaders options
       [(''User-Agent'', JStr (cl_userAgent c)), (''Authorization'', JStr (authHeader c))]
       True"

definition anvil_url :: "client \<Rightarrow> string \<Rightarrow> string" where
  "anvil_url c path = cl_baseURL c @ path"

text \<open>
  \<^verbatim>\<open>_request (url, options) {
  if (!url.startsWith(this.options.baseURL)) { url = this._url(url) }
  const opts = this._addDefaultHeaders(options)
  return fetch(url, opts)
}\<close>
  The only place that calls \<open>fetch\<close>.
\<close>

definition request ::
  "client \<Rightarrow> env \<Rightarrow> string \<Rightarrow> fetch_options \<Rightarrow> world \<Rightarrow> (error + response) \<times> world" where
  "request c e url options w =
     (let url' = (if \<not> startsWith url (cl_baseURL c) then anvil_url c url else url);
          opts = addDefaultHeaders c options
      in (transport e (fetches w),
          emit [Fetch url' opts] (w \<lparr> fetches := fetches w + 1 \<rparr>)))"

section \<open>The retrying executor\<close>

definition DATA_TYPE_STREAM :: string where "DATA_TYPE_STREAM = ''stream''"
definition DATA_TYPE_BUFFER :: string where "DATA_TYPE_BUFFER = ''buffer''"
definition DATA_TYPE_JSON :: string where "DATA_TYPE_JSON = ''json''"

text \<open>What the function passed to \<open>_throttle\<close> does: it calls \<open>retry(ms)\<close>, or it settles.\<close>

datatype step = Retry jsnum | Settle result

definition status_js :: "int \<Rightarrow> js" where
  "status_js n = JNum (Fin (of_int n))"

text \<open>
  The body of the function of \<open>_wrapRequest\<close>, after the response has arrived:
  \<^verbatim>\<open>const statusCode = response.status
if (statusCode >= 300) {
  if (statusCode === 429) {
    return retry(getRetryMS(response.headers.get('retry-after')))
  }
  const json = await response.json()
  const errors = json.errors || (json.message && [json])
  return errors ? { statusCode, errors } : { statusCode, ...json }
}
const { dataType } = clientOptions
let data
switch (dataType) {
  case DATA_TYPE_STREAM: data = response.body; break
  case DATA_TYPE_BUFFER: data = await response.buffer(); break
  case DATA_TYPE_JSON: data = await response.json(); break
  default:
    console.warn('Using default response dataType of "json". Please specifiy a dataType.')
    data = await response.json()
    break
}
return { response, data, statusCode }\<close>
  The result is the step taken and the events it caused.
\<close>

definition default_dataType_warning :: string where
  "default_dataType_warning =
     ''Using default response dataType of '' @ [CHR 0x22] @ ''json'' @ [CHR 0x22]
       @ ''. Please specifiy a dataType.''"

definition on_response :: "js \<Rightarrow> response \<Rightarrow> step \<times> event list" where
  "on_response clientOptions response =
     (let statusCode = res_status response in
      if statusCode \<ge> 300 then
        if statusCode = 429 then
          (Retry (getRetryMS (res_headers_get response ''retry-after'')), [])
        else
          (case res_json response of
             Inl e \<Rightarrow> (Settle (Rejected e), [])
           | Inr json \<Rightarrow>
               (case get_prop json ''errors'' of
                  Inl e \<Rightarrow> (Settle (Rejected e), [])
                | Inr json_errors \<Rightarrow>
                    let errors =
                          (if truthy json_errors then json_errors
                           else let message = lookup_prop (own_props json) ''message''
                                in if truthy message then JArr [json] else message)
                    in if truthy errors
                       then (Settle (Resolved (JObj [(''statusCode'', status_js statusCode),
                                                     (''errors'', errors)])), [])
                       else (Settle (Resolved (JObj (spread_into
                                        [(''statusCode'', status_js statusCode)] json))), [])))
      else
        (case get_prop clientOptions ''dataType'' of
           Inl e \<Rightarrow> (Settle (Rejected e), [])
         | Inr dataType \<Rightarrow>
             let done = (\<lambda>data. Resolved (JObj [(''response'', JResponse (res_id response)),
                                                (''data'', data),
                                                (''statusCode'', status_js statusCode)]));
                 settled = (\<lambda>r. case r of Inl e \<Rightarrow> Rejected e | Inr data \<Rightarrow> done data)
             in if dataType = JStr DATA_TYPE_STREAM then (Settle (done (res_body response)), [])
                else if dataType = JStr DATA_TYPE_BUFFER
                  then (Settle (settled (res_buffer response)), [])
                else if dataType = JStr DATA_TYPE_JSON
                  then (Settle (settled (res_json response)), [])
                else (Settle (settled (res_json response)),
                      [ConsoleWarn default_dataType_warning])))"

text \<open>
  The function that \<open>_wrapRequest\<close> hands to \<open>_throttle\<close>: it awaits
  \<open>retryableRequestFn()\<close> (a rejection of it rejects the call), then runs the body above.
\<close>

definition wrapRequest_fn ::
  "(world \<Rightarrow> (error + response) \<times> world) \<Rightarrow> js \<Rightarrow> world \<Rightarrow> step \<times> world" where
  "wrapRequest_fn retryableRequestFn clientOptions w =
     (case retryableRequestFn w of
        (Inl e, w') \<Rightarrow> (Settle (Rejected e), w')
      | (Inr response, w') \<Rightarrow>
          (let (st, evs) = on_response clientOptions response in (st, emit evs w')))"

text \<open>
  The limiter is the external \<open>limiter\<close> package, created with
  \<open>new RateLimiter(requestLimit, requestLimitMS, true)\<close>. Its \<open>removeTokens(count, cb)\<close>
  passes an error to the callback exactly when \<open>count\<close> exceeds the bucket size, and
  otherwise the remaining requests (below 1 when the bucket is exhausted).
\<close>

definition limiter_err :: "nat \<Rightarrow> nat \<Rightarrow> error option" where
  "limiter_err count bucketSize =
     (if count > bucketSize
      then Some (Error ''Requested tokens exceeds maximum tokens per interval'')
      else None)"

text \<open>
  \<^verbatim>\<open>_throttle (fn) {
  return new Promise((resolve, reject) => {
    this.limiter.removeTokens(1, async (err, remainingRequests) => {
      if (err) reject(err)
      if (remainingRequests < 1) {
        await sleep(this.requestLimitMS + failBufferMS)
      }
      const retry = async (ms) => {
        await sleep(ms)
        return this._throttle(fn)
      }
      try { resolve(await fn(retry)) } catch (e) { reject(e) }
    })
  })
}\<close>
  The recursion through \<open>retry\<close> has no bound in the source. The first argument of the
  model is the number of attempts it follows; when they are used up the promise is still
  \<open>Pending\<close>. After \<open>reject(err)\<close> the callback goes on (there is no \<open>return\<close>), with
  \<open>remainingRequests\<close> \<open>null\<close>, which is below 1; the promise stays rejected.
\<close>

fun throttle :: "nat \<Rightarrow> env \<Rightarrow> (world \<Rightarrow> step \<times> world) \<Rightarrow> world \<Rightarrow> result \<times> world" where
  "throttle 0 e fn w = (Pending, w)"
| "throttle (Suc n) e fn w =
     (let err = limiter_err 1 requestLimit;
          remainingRequests = remaining e (acquired w);
          w1 = emit [RemoveTokens 1] (w \<lparr> acquired := acquired w + 1 \<rparr>);
          w2 = (if err \<noteq> None \<or> remainingRequests < 1
                then emit [Sleep (Fin (requestLimitMS + failBufferMS))] w1 else w1);
          (st, w3) = fn w2;
          (r, w4) = (case st of
                       Retry ms \<Rightarrow> throttle n e fn (emit [Sleep ms] w3)
                     | Settle out \<Rightarrow> (out, w3))
      in (case err of Some x \<Rightarrow> (Rejected x, w4) | None \<Rightarrow> (r, w4)))"

definition wrapRequest ::
  "nat \<Rightarrow> env \<Rightarrow> (world \<Rightarrow> (error + response) \<times> world) \<Rightarrow> js \<Rightarrow> world \<Rightarrow> result \<times> world" where
  "wrapRequest n e retryableRequestFn clientOptions w =
     throttle n e (wrapRequest_fn retryableRequestFn (default_to clientOptions (JObj []))) w"

text \<open>
  The destructuring \<open>const { a, b, ... } = await promise\<close> followed by
  \<open>return { a, b, ... }\<close>, as \<open>requestREST\<close> and \<open>requestGraphQL\<close> do on the result of
  \<open>_wrapRequest\<close>.
\<close>

definition pick :: "string list \<Rightarrow> result \<Rightarrow> result" where
  "pick keys r =
     (case r of
        Resolved v \<Rightarrow>
          (if v = JUndefined \<or> v = JNull
           then Rejected (TypeError ''Cannot destructure null or undefined'')
           else Resolved (JObj (map (\<lambda>k. (k, lookup_prop (own_props v) k)) keys)))
      | other \<Rightarrow> other)"

definition requestREST ::
  "nat \<Rightarrow> client \<Rightarrow> env \<Rightarrow> string \<Rightarrow> fetch_options \<Rightarrow> js \<Rightarrow> world \<Rightarrow> result \<times> world" where
  "requestREST n c e url fetchOptions clientOptions w =
     (let (r, w') = wrapRequest n e (request c e url fetchOptions) clientOptions w
      in (pick [''response'', ''statusCode'', ''data'', ''errors''] r, w'))"

section \<open>The REST operations\<close>

text \<open>
  \<^verbatim>\<open>fillPDF (pdfTemplateID, payload, clientOptions = {}) {
  const supportedDataTypes = [DATA_TYPE_STREAM, DATA_TYPE_BUFFER]
  const { dataType = DATA_TYPE_BUFFER } = clientOptions
  if (dataType && !supportedDataTypes.includes(dataType)) {
    throw new Error(`dataType must be one of: ${supportedDataTypes.join('|')}`)
  }
  return this.requestREST(url, fetchOptions, { ...clientOptions, dataType })
}\<close>
  \<open>generatePDF\<close> and \<open>downloadDocuments\<close> open with the same lines. \<open>checked_dataType\<close>
  is this common opening: the error thrown, or the \<open>dataType\<close> and the client options
  passed on. \<open>JSON.stringify\<close> is a parameter of the model.
\<close>

definition supportedDataTypes :: "js list" where
  "supportedDataTypes = [JStr DATA_TYPE_STREAM, JStr DATA_TYPE_BUFFER]"

definition checked_dataType :: "js \<Rightarrow> error + js" where
  "checked_dataType clientOptions =
     (case get_prop clientOptions ''dataType'' of
        Inl e \<Rightarrow> Inl e
      | Inr d \<Rightarrow>
          let dataType = default_to d (JStr DATA_TYPE_BUFFER)
          in if truthy dataType \<and> dataType \<notin> set supportedDataTypes
             then Inl (Error ''dataType must be one of: stream|buffer'')
             else Inr (JObj (set_prop (spread_into [] clientOptions) ''dataType'' dataType)))"

definition json_post :: "(js \<Rightarrow> js) \<Rightarrow> js \<Rightarrow> fetch_options" where
  "json_post stringify payload =
     \<lparr> fo_method = Some ''POST'',
       fo_headers = Some [(''Content-Type'', JStr ''application/json'')],
       fo_body = Some (BodyText (stringify payload)),
       fo_signal = False \<rparr>"

definition fillPDF ::
  "nat \<Rightarrow> client \<Rightarrow> env \<Rightarrow> (js \<Rightarrow> js) \<Rightarrow> string \<Rightarrow> js \<Rightarrow> js \<Rightarrow> world \<Rightarrow> result \<times> world" where
  "fillPDF n c e stringify pdfTemplateID payload clientOptions w =
     (case checked_dataType (default_to clientOptions (JObj [])) of
        Inl err \<Rightarrow> (Thrown err, w)
      | Inr clientOptions' \<Rightarrow>
          requestREST n c e (''/api/v1/fill/'' @ pdfTemplateID @ ''.pdf'')
            (json_post stringify payload) clientOptions' w)"

definition generatePDF ::
  "nat \<Rightarrow> client \<Rightarrow> env \<Rightarrow> (js \<Rightarrow> js) \<Rightarrow> js \<Rightarrow> js \<Rightarrow> world \<Rightarrow> result \<times> world" where
  "generatePDF n c e stringify payload clientOptions w =
     (case checked_dataType (default_to clientOptions (JObj [])) of
        Inl err \<Rightarrow> (Thrown err, w)
      | Inr clientOptions' \<Rightarrow>
          requestREST n c e ''/api/v1/generate-pdf''
            (json_post stringify payload) clientOptions' w)"

definition downloadDocuments ::
  "nat \<Rightarrow> client \<Rightarrow> env \<Rightarrow> string \<Rightarrow> js \<Rightarrow> world \<Rightarrow> result \<times> world" where
  "downloadDocuments n c e documentGroupEid clientOptions w =
     (case checked_dataType (default_to clientOptions (JObj [])) of
        Inl err \<Rightarrow> (Thrown err, w)
      | Inr clientOptions' \<Rightarrow>
          requestREST n c e (''/api/document-group/'' @ documentGroupEid @ ''.zip'')
            \<lparr> fo_method = Some ''GET'', fo_headers = None, fo_body = None, fo_signal = False \<rparr>
            clientOptions' w)"

section \<open>The earlier executor of \<open>src/index.js\<close>\<close>

text \<open>
  The sources hold an earlier revision of the client as well, whose \<open>requestREST\<close> is
  itself the executor:
  \<^verbatim>\<open>async requestREST (url, options, clientOptions = {}) {
  return this.throttle(async (retry) => {
    const response = await this.request(url, options)
    const statusCode = response.status
    if (statusCode === 429) {
      return retry(getRetryMS(response.headers.get('retry-after')))
    }
    if (statusCode >= 300) {
      const json = await response.json()
      const errors = json.errors || (json.message && [json.message])
      if (errors) { return { statusCode, errors } }
      return { statusCode, ...json }
    }
    const { dataType } = clientOptions
    const data = dataType === 'stream' ? response.body : await response.buffer()
    return { statusCode, data }
  })
}\<close>
  Its \<open>throttle\<close> is the \<open>_throttle\<close> above word for word; its \<open>request\<close> calls
  \<open>fetch(url, options)\<close> without adding headers.
\<close>

definition legacy_on_response :: "js \<Rightarrow> response \<Rightarrow> step \<times> event list" where
  "legacy_on_response clientOptions response =
     (let statusCode = res_status response in
      if statusCode = 429 then
        (Retry (getRetryMS (res_headers_get response ''retry-after'')), [])
      else if statusCode \<ge> 300 then
        (case res_json response of
           Inl e \<Rightarrow> (Settle (Rejected e), [])
         | Inr json \<Rightarrow>
             (case get_prop json ''errors'' of
                Inl e \<Rightarrow> (Settle (Rejected e), [])
              | Inr json_errors \<Rightarrow>
                  let errors =
                        (if truthy json_errors then json_errors
                         else let message = lookup_prop (own_props json) ''message''
                              in if truthy message then JArr [message] else message)
                  in if truthy errors
                     then (Settle (Resolved (JObj [(''statusCode'', status_js statusCode),
                                                   (''errors'', errors)])), [])
                     else (Settle (Resolved (JObj (spread_into
                                      [(''statusCode'', status_js statusCode)] json))), [])))
      else
        (case get_prop clientOptions ''dataType'' of
           Inl e \<Rightarrow> (Settle (Rejected e), [])
         | Inr dataType \<Rightarrow>
             if dataType = JStr ''stream''
             then (Settle (Resolved (JObj [(''statusCode'', status_js statusCode),
                                           (''data'', res_body response)])), [])
             else (case res_buffer response of
                     Inl e \<Rightarrow> (Settle (Rejected e), [])
                   | Inr data \<Rightarrow>
                       (Settle (Resolved (JObj [(''statusCode'', status_js statusCode),
                                                (''data'', data)])), []))))"

definition legacy_request ::
  "client \<Rightarrow> env \<Rightarrow> string \<Rightarrow> fetch_options \<Rightarrow> world \<Rightarrow> (error + response) \<times> world" where
  "legacy_request c e url options w =
     (let url' = (if \<not> startsWith url (cl_baseURL c) then anvil_url c url else url)
      in (transport e (fetches w),
          emit [Fetch url' options] (w \<lparr> fetches := fetches w + 1 \<rparr>)))"

definition legacy_requestREST ::
  "nat \<Rightarrow> client \<Rightarrow> env \<Rightarrow> string \<Rightarrow> fetch_options \<Rightarrow> js \<Rightarrow> world \<Rightarrow> result \<times> world" where
  "legacy_requestREST n c e url options clientOptions w =
     throttle n e
       (\<lambda>w. case legacy_request c e url options w of
               (Inl err, w') \<Rightarrow> (Settle (Rejected err), w')
             | (Inr response, w') \<Rightarrow>
                 (let (st, evs) =
                        legacy_on_response (default_to clientOptions (JObj [])) response
                  in (st, emit evs w')))
       w"

section \<open>GraphQL requests\<close>

text \<open>
  The file map: a \<open>Map\<close> from upload value to the paths that reference it, as the list
  of its entries in insertion order. Keys are compared as \<open>Map\<close> compares them; for the
  constructors that carry an address this is identity.
\<close>

type_synonym files_map = "(js \<times> string list) list"

text \<open>
  Modelled from the spec: \<open>extractFiles\<close> of the external \<open>extract-files\<close> package is not
  in the sources. The spec (4.3, FileExtractor) has it walk the value depth-first,
  objects and ordered sequences, and record the dotted path (array indices for sequence
  elements) to every value that satisfies the upload predicate; such a value is replaced
  by \<open>null\<close> in the clone and recorded in the file map keyed by the value itself, so that
  one value referenced from two paths has one entry with both paths. Everything else is
  cloned structurally. The upload predicate \<open>isFile\<close> (of \<open>./validation\<close>, not in the
  sources either) is a parameter.
\<close>

fun addFile :: "files_map \<Rightarrow> string list \<Rightarrow> js \<Rightarrow> files_map" where
  "addFile [] paths file = [(file, paths)]"
| "addFile ((f, ps) # rest) paths file =
     (if f = file then (f, ps @ paths) # rest else (f, ps) # addFile rest paths file)"

definition add_all :: "files_map \<Rightarrow> files_map \<Rightarrow> files_map" where
  "add_all files child = foldl (\<lambda>acc (file, paths). addFile acc paths file) files child"

definition path_prefix :: "string \<Rightarrow> string" where
  "path_prefix path = (if path = [] then [] else path @ ''.'')"

fun extractFiles :: "(js \<Rightarrow> bool) \<Rightarrow> js \<Rightarrow> string \<Rightarrow> js \<times> files_map"
and extract_items ::
  "(js \<Rightarrow> bool) \<Rightarrow> js list \<Rightarrow> string \<Rightarrow> nat \<Rightarrow> files_map \<Rightarrow> js list \<times> files_map"
and extract_props ::
  "(js \<Rightarrow> bool) \<Rightarrow> (string \<times> js) list \<Rightarrow> string \<Rightarrow> files_map
     \<Rightarrow> (string \<times> js) list \<times> files_map"
where
  "extractFiles isFile (JArr xs) path =
     (if isFile (JArr xs) then (JNull, [(JArr xs, [path])])
      else case extract_items isFile xs (path_prefix path) 0 [] of
             (clone, files) \<Rightarrow> (JArr clone, files))"
| "extractFiles isFile (JObj kvs) path =
     (if isFile (JObj kvs) then (JNull, [(JObj kvs, [path])])
      else case extract_props isFile kvs (path_prefix path) [] of
             (clone, files) \<Rightarrow> (JObj clone, files))"
| "extractFiles isFile v path =
     (if isFile v then (JNull, [(v, [path])]) else (v, []))"
| "extract_items isFile [] prefix i files = ([], files)"
| "extract_items isFile (x # xs) prefix i files =
     (case extractFiles isFile x (prefix @ string_of_nat i) of
        (c, fs) \<Rightarrow>
          (case extract_items isFile xs prefix (Suc i) (add_all files fs) of
             (cs, files') \<Rightarrow> (c # cs, files')))"
| "extract_props isFile [] prefix files = ([], files)"
| "extract_props isFile ((k, x) # kvs) prefix files =
     (case extractFiles isFile x (prefix @ k) of
        (c, fs) \<Rightarrow>
          (case extract_props isFile kvs prefix (add_all files fs) of
             (cs, files') \<Rightarrow> ((k, c) # cs, files')))"

text \<open>
  The paths at which a tree references upload values, depth-first: what
  ``referenced at a path'' means.
\<close>

fun file_leaves :: "(js \<Rightarrow> bool) \<Rightarrow> js \<Rightarrow> string \<Rightarrow> (js \<times> string) list"
and item_leaves :: "(js \<Rightarrow> bool) \<Rightarrow> js list \<Rightarrow> string \<Rightarrow> nat \<Rightarrow> (js \<times> string) list"
and prop_leaves :: "(js \<Rightarrow> bool) \<Rightarrow> (string \<times> js) list \<Rightarrow> string \<Rightarrow> (js \<times> string) list"
where
  "file_leaves isFile (JArr xs) path =
     (if isFile (JArr xs) then [(JArr xs, path)]
      else item_leaves isFile xs (path_prefix path) 0)"
| "file_leaves isFile (JObj kvs) path =
     (if isFile (JObj kvs) then [(JObj kvs, path)]
      else prop_leaves isFile kvs (path_prefix path))"
| "file_leaves isFile v path = (if isFile v then [(v, path)] else [])"
| "item_leaves isFile [] prefix i = []"
| "item_leaves isFile (x # xs) prefix i =
     file_leaves isFile x (prefix @ string_of_nat i) @ item_leaves isFile xs prefix (Suc i)"
| "prop_leaves isFile [] prefix = []"
| "prop_leaves isFile ((k, x) # kvs) prefix =
     file_leaves isFile x (prefix @ k) @ prop_leaves isFile kvs prefix"

text \<open>
  The \<open>map\<close> object of \<open>requestGraphQL\<close>:
  \<^verbatim>\<open>const map = {}
let i = 0
filesMap.forEach(paths => { map[++i] = paths })\<close>
\<close>

definition graphql_map :: "files_map \<Rightarrow> (string \<times> js) list" where
  "graphql_map filesMap =
     snd (foldl (\<lambda>(i, m) (file, paths).
                   (i + 1, set_prop m (string_of_nat (i + 1)) (JArr (map JStr paths))))
            (0 :: nat, []) filesMap)"

text \<open>
  The second loop over the file map:
  \<^verbatim>\<open>i = 0
filesMap.forEach((paths, file) => {
  let appendOptions = {}
  if (file instanceof UploadWithOptions) {
    appendOptions = file.options
    file = file.file
  }
  if (typeof file.on === 'function') { file.on('error', ...abort...) }
  form.append(`${++i}`, file, appendOptions)
})\<close>
  Reading \<open>file.on\<close> throws on \<open>null\<close> and \<open>undefined\<close>. The error listener acts only when
  a stream fails during the upload, which the model does not follow.
\<close>

fun append_files :: "nat \<Rightarrow> files_map \<Rightarrow> form_part list \<Rightarrow> error + form_part list" where
  "append_files i [] form = Inr form"
| "append_files i ((file, paths) # rest) form =
     (let (appendOptions, file') =
            (case file of
               JUploadWithOptions a f opts \<Rightarrow> (opts, f)
             | _ \<Rightarrow> (JObj [], file))
      in if file' = JUndefined \<or> file' = JNull
         then Inl (TypeError ''Cannot read property on of null or undefined'')
         else append_files (i + 1) rest
                (form @ [Part (string_of_nat (i + 1)) file' appendOptions]))"

text \<open>
  The encoding branch of \<open>requestGraphQL\<close>, \<open>if (filesMap.size) { ... } else { ... }\<close>,
  on the options \<open>{ method: 'POST', headers: {} }\<close>: a multipart form with the parts
  \<open>operations\<close>, \<open>map\<close> and one part per file, or the plain JSON body.
\<close>

definition graphql_options :: "(js \<Rightarrow> js) \<Rightarrow> js \<Rightarrow> files_map \<Rightarrow> error + fetch_options" where
  "graphql_options stringify operationJSON filesMap =
     (let options = \<lparr> fo_method = Some ''POST'', fo_headers = Some [], fo_body = None,
                      fo_signal = False \<rparr>
      in if filesMap \<noteq> [] then
           (let form = [Part ''operations'' operationJSON JUndefined,
                        Part ''map'' (stringify (JObj (graphql_map filesMap))) JUndefined]
            in case append_files 0 filesMap form of
                 Inl err \<Rightarrow> Inl err
               | Inr form' \<Rightarrow>
                   Inr (options \<lparr> fo_signal := True, fo_body := Some (BodyForm form') \<rparr>))
         else
           Inr (options \<lparr> fo_headers := Some [(''Content-Type'', JStr ''application/json'')],
                           fo_body := Some (BodyText operationJSON) \<rparr>))"

text \<open>
  \<^verbatim>\<open>async requestGraphQL ({ query, variables = {} }, clientOptions) {
  const options = { method: 'POST', headers: {} }
  const originalOperation = { query, variables }
  const { clone: augmentedOperation, files: filesMap } =
    extractFiles(originalOperation, '', isFile)
  const operationJSON = JSON.stringify(augmentedOperation)
  if (!graphQLUploadSchemaIsValid(originalOperation)) {
    throw new Error('Invalid File schema detected')
  }
  ... the encoding branch ...
  const { statusCode, data, errors } = await this._wrapRequest(
    () => this._request('/graphql', options), clientOptions)
  return { statusCode, data, errors }
}\<close>
  The function is \<open>async\<close>: what it throws rejects its promise. \<open>isFile\<close>,
  \<open>graphQLUploadSchemaIsValid\<close> (both of \<open>./validation\<close>, not in the sources) and
  \<open>JSON.stringify\<close> are parameters.
\<close>

definition requestGraphQL ::
  "nat \<Rightarrow> client \<Rightarrow> env \<Rightarrow> (js \<Rightarrow> bool) \<Rightarrow> (js \<Rightarrow> bool) \<Rightarrow> (js \<Rightarrow> js)
     \<Rightarrow> js \<Rightarrow> js \<Rightarrow> js \<Rightarrow> world \<Rightarrow> result \<times> world" where
  "requestGraphQL n c e isFile graphQLUploadSchemaIsValid stringify query variables
       clientOptions w =
     (let originalOperation =
            JObj [(''query'', query), (''variables'', default_to variables (JObj []))];
          (augmentedOperation, filesMap) = extractFiles isFile originalOperation [];
          operationJSON = stringify augmentedOperation
      in if \<not> graphQLUploadSchemaIsValid originalOperation
         then (Rejected (Error ''Invalid File schema detected''), w)
         else
           (case graphql_options stringify operationJSON filesMap of
              Inl err \<Rightarrow> (Rejected err, w)
            | Inr options \<Rightarrow>
                (let (r, w') = wrapRequest n e (request c e ''/graphql'' options) clientOptions w
                 in (pick [''statusCode'', ''data'', ''errors''] r, w'))))"

text \<open>
  Modelled from the spec: \<open>graphQLUploadSchemaIsValid\<close> of \<open>./validation\<close> is not in the
  sources. The spec (4.3) has the validation pass reject a tree where a value looks
  partially file-like: an object with some but not all of \<open>data\<close>, \<open>filename\<close>,
  \<open>mimetype\<close>.
\<close>

definition partially_file_like :: "(string \<times> js) list \<Rightarrow> bool" where
  "partially_file_like kvs =
     ((\<exists>k \<in> set [''data'', ''filename'', ''mimetype'']. k \<in> fst ` set kvs)
      \<and> \<not> (\<forall>k \<in> set [''data'', ''filename'', ''mimetype'']. k \<in> fst ` set kvs))"

fun contains_partial :: "js \<Rightarrow> bool"
and items_contain_partial :: "js list \<Rightarrow> bool"
and props_contain_partial :: "(string \<times> js) list \<Rightarrow> bool"
where
  "contains_partial (JObj kvs) = (partially_file_like kvs \<or> props_contain_partial kvs)"
| "contains_partial (JArr xs) = items_contain_partial xs"
| "contains_partial v = False"
| "items_contain_partial [] = False"
| "items_contain_partial (x # xs) = (contains_partial x \<or> items_contain_partial xs)"
| "props_contain_partial [] = False"
| "props_contain_partial ((k, x) # kvs) = (contains_partial x \<or> props_contain_partial kvs)"

definition spec_schemaIsValid :: "js \<Rightarrow> bool" where
  "spec_schemaIsValid operation = (\<not> contains_partial operation)"

section \<open>Base64 uploads\<close>

text \<open>
  \<^verbatim>\<open>static _prepareGraphQLBase64 (data, options = {}) {
  const { filename, mimetype } = options
  if (!filename) { throw new Error('options.filename must be provided for Base64 upload') }
  if (!mimetype) { throw new Error('options.mimetype must be provided for Base64 upload') }
  if (options.bufferize) {
    const buffer = Buffer.from(data, 'base64')
    return this._prepareGraphQLBuffer(buffer, options)
  }
  return { data, filename, mimetype }
}\<close>
  In a static method \<open>this\<close> is the class. The class \<open>Anvil\<close> declares the static members
  \<open>prepareGraphQLFile\<close> and \<open>_prepareGraphQLBase64\<close> and no member named
  \<open>_prepareGraphQLBuffer\<close>: \<open>this._prepareGraphQLBuffer\<close> is \<open>undefined\<close>, and calling it
  throws a \<open>TypeError\<close>. \<open>Buffer.from(data, 'base64')\<close> before it accepts a string, an
  array or a buffer and throws a \<open>TypeError\<close> on any other value.
\<close>

definition prepareGraphQLBase64 :: "js \<Rightarrow> js \<Rightarrow> error + js" where
  "prepareGraphQLBase64 data options =
     (let options' = default_to options (JObj []) in
      case get_prop options' ''filename'' of
        Inl e \<Rightarrow> Inl e
      | Inr filename \<Rightarrow>
          let mimetype = lookup_prop (own_props options') ''mimetype'' in
          if \<not> truthy filename
          then Inl (Error ''options.filename must be provided for Base64 upload'')
          else if \<not> truthy mimetype
          then Inl (Error ''options.mimetype must be provided for Base64 upload'')
          else if truthy (lookup_prop (own_props options') ''bufferize'')
          then (case data of
                  JStr s \<Rightarrow> Inl (TypeError ''this._prepareGraphQLBuffer is not a function'')
                | JArr xs \<Rightarrow> Inl (TypeError ''this._prepareGraphQLBuffer is not a function'')
                | JBuffer a \<Rightarrow> Inl (TypeError ''this._prepareGraphQLBuffer is not a function'')
                | _ \<Rightarrow> Inl (TypeError ''The first argument must be of type string or an instance of Buffer, ArrayBuffer, or Array or an Array-like Object''))
          else Inr (JObj [(''data'', data), (''filename'', filename), (''mimetype'', mimetype)]))"

section \<open>Notions used in the statements\<close>

text \<open>
  Taking a token, as \<open>_throttle\<close> starts every attempt: the token is removed and, when
  the limiter reports less than one remaining request, the client sleeps for the window
  plus the safety margin.
\<close>

definition acquire :: "env \<Rightarrow> world \<Rightarrow> world" where
  "acquire e w =
     (let w1 = emit [RemoveTokens 1] (w \<lparr> acquired := acquired w + 1 \<rparr>)
      in if remaining e (acquired w) < 1
         then emit [Sleep (Fin (requestLimitMS + failBufferMS))] w1 else w1)"

text \<open>
  An event respects the default headers of a client when, if it is a physical call, its
  options carry the client's \<open>Authorization\<close> and \<open>User-Agent\<close> values.
\<close>

definition carries_defaults :: "client \<Rightarrow> event \<Rightarrow> bool" where
  "carries_defaults c ev =
     (case ev of
        Fetch url opts \<Rightarrow>
          (case fo_headers opts of
             None \<Rightarrow> False
           | Some h \<Rightarrow> lookup_prop h ''Authorization'' = JStr (authHeader c)
                      \<and> lookup_prop h ''User-Agent'' = JStr (cl_userAgent c))
      | _ \<Rightarrow> True)"

section \<open>Test data\<close>

text \<open>
  The data of the test suite: the mocked fetch response (\<open>mockNodeFetchResponse\<close> of
  \<open>test/index.test.js\<close>), a transport that answers with a given list of responses, and
  the client \<open>new Anvil({ apiKey: 'abc123' })\<close>.
\<close>

definition mockNodeFetchResponse :: "nat \<Rightarrow> int \<Rightarrow> string option \<Rightarrow> js \<Rightarrow> response" where
  "mockNodeFetchResponse i st retryAfter payload =
     \<lparr> res_id = i, res_status = st,
       res_headers_get = (\<lambda>name. if name = ''retry-after'' then retryAfter else None),
       res_body = JStream i, res_buffer = Inr (JBuffer i), res_json = Inr payload \<rparr>"

definition mock_env :: "response list \<Rightarrow> env" where
  "mock_env rs =
     \<lparr> remaining = (\<lambda>k. 100),
       transport = (\<lambda>k. if k < length rs then Inr (rs ! k)
                         else Inl (TransportFailure ''no more responses'')) \<rparr>"

definition test_options :: anvil_options where
  "test_options = \<lparr> apiKey = Some ''abc123'', accessToken = None, baseURL = None,
                     userAgent = None \<rparr>"

definition test_client :: client where
  "test_client = \<lparr> cl_baseURL = ''https://app.useanvil.com'',
                    cl_userAgent = ''Anvil API Client/2.0.0'',
                    authHeader = ''Basic YWJjMTIzOg=='' \<rparr>"

text \<open>Fetch options whose caller tries to set the two default headers.\<close>

definition spoofed_options :: fetch_options where
  "spoofed_options =
     \<lparr> fo_method = Some ''POST'',
       fo_headers = Some [(''Authorization'', JStr ''Bearer stolen''),
                          (''User-Agent'', JStr ''curl''),
                          (''Content-Type'', JStr ''application/json'')],
       fo_body = None, fo_signal = False \<rparr>"


text \<open>
  The events of one attempt of \<open>_wrapRequest\<close> on \<open>_request(url, options)\<close> up to and
  including its physical call, for the attempt that takes the k-th token; the delay that
  the response of the k-th physical call asks for; and the events of \<open>n\<close> throttled
  attempts in a row, each followed by the sleep of its delay, starting at token \<open>a\<close> and
  physical call \<open>f\<close>.
\<close>

definition attempt_events :: "client \<Rightarrow> env \<Rightarrow> string \<Rightarrow> fetch_options \<Rightarrow> nat \<Rightarrow> event list" where
  "attempt_events c e url options k =
     [RemoveTokens 1]
     @ (if remaining e k < 1 then [Sleep (Fin (requestLimitMS + failBufferMS))] else [])
     @ [Fetch (if \<not> startsWith url (cl_baseURL c) then anvil_url c url else url)
          (addDefaultHeaders c options)]"

definition retry_delay :: "env \<Rightarrow> nat \<Rightarrow> jsnum" where
  "retry_delay e k =
     (case transport e k of
        Inr r \<Rightarrow> getRetryMS (res_headers_get r ''retry-after'')
      | Inl err \<Rightarrow> NaN)"

fun retried_events ::
  "client \<Rightarrow> env \<Rightarrow> string \<Rightarrow> fetch_options \<Rightarrow> nat \<Rightarrow> nat \<Rightarrow> nat \<Rightarrow> event list" where
  "retried_events c e url options a f 0 = []"
| "retried_events c e url options a f (Suc n) =
     attempt_events c e url options a @ [Sleep (retry_delay e f)]
     @ retried_events c e url options (Suc a) (Suc f) n"

text \<open>The number of physical calls and of tokens taken in a trace.\<close>

definition is_fetch :: "event \<Rightarrow> bool" where
  "is_fetch ev = (case ev of Fetch url opts \<Rightarrow> True | _ \<Rightarrow> False)"

definition is_token :: "event \<Rightarrow> bool" where
  "is_token ev = (case ev of RemoveTokens k \<Rightarrow> True | _ \<Rightarrow> False)"


text \<open>The body of the 401 test: \<open>{ name: 'AuthorizationError', message: 'problem' }\<close>.\<close>

definition authorization_error :: js where
  "authorization_error =
     JObj [(''name'', JStr ''AuthorizationError''), (''message'', JStr ''problem'')]"


text \<open>The fetch options of the retry test: \<open>{ method: 'POST' }\<close>.\<close>

definition post_options :: fetch_options where
  "post_options = \<lparr> fo_method = Some ''POST'', fo_headers = None, fo_body = None,
                     fo_signal = False \<rparr>"


text \<open>
  The pairs of upload value and path that a file map records; the value and the append
  options that the second loop of \<open>requestGraphQL\<close> hands to \<open>form.append\<close> for a file
  (an \<open>UploadWithOptions\<close> wrapper is unwrapped); and the path list of an entry as the
  array of strings that becomes the entry's value in the \<open>map\<close> object.
\<close>

definition pairs_of :: "files_map \<Rightarrow> (js \<times> string) set" where
  "pairs_of files = {(f, p). \<exists>ps. (f, ps) \<in> set files \<and> p \<in> set ps}"

definition upload_file :: "js \<Rightarrow> js" where
  "upload_file file = (case file of JUploadWithOptions a f opts \<Rightarrow> f | _ \<Rightarrow> file)"

definition upload_options :: "js \<Rightarrow> js" where
  "upload_options file = (case file of JUploadWithOptions a f opts \<Rightarrow> opts | _ \<Rightarrow> JObj [])"

definition paths_js :: "js \<times> string list \<Rightarrow> js" where
  "paths_js entry = JArr (map JStr (snd entry))"

text \<open>
  An upload predicate for the examples: buffers, streams and \<open>UploadWithOptions\<close>
  wrappers, the three kinds of file the tests send.
\<close>

definition is_upload :: "js \<Rightarrow> bool" where
  "is_upload v =
     (case v of
        JBuffer a \<Rightarrow> True
      | JStream a \<Rightarrow> True
      | JUploadWithOptions a f opts \<Rightarrow> True
      | _ \<Rightarrow> False)"

text \<open>
  Variables that reference one buffer at two paths and a wrapped stream at a third, with
  the clone, the file map and the fetch options they lead to (\<open>JSON.stringify\<close> taken as
  the identity, so that the JSON values themselves can be read).
\<close>

definition shared_variables :: js where
  "shared_variables =
     JObj [(''a'', JObj [(''file'', JBuffer 7)]),
           (''b'', JArr [JBuffer 7,
                         JUploadWithOptions 9 (JStream 8) (JObj [(''filename'', JStr ''x.pdf'')])])]"

definition shared_clone :: js where
  "shared_clone =
     JObj [(''query'', JStr ''mutation''),
           (''variables'', JObj [(''a'', JObj [(''file'', JNull)]), (''b'', JArr [JNull, JNull])])]"

definition shared_files :: files_map where
  "shared_files =
     [(JBuffer 7, [''variables.a.file'', ''variables.b.0'']),
      (JUploadWithOptions 9 (JStream 8) (JObj [(''filename'', JStr ''x.pdf'')]),
       [''variables.b.1''])]"

definition shared_request :: fetch_options where
  "shared_request =
     \<lparr> fo_method = Some ''POST'', fo_headers = Some [],
       fo_body = Some (BodyForm
         [Part ''operations'' shared_clone JUndefined,
          Part ''map''
            (JObj [(''1'', JArr [JStr ''variables.a.file'', JStr ''variables.b.0'']),
                   (''2'', JArr [JStr ''variables.b.1''])])
            JUndefined,
          Part ''1'' (JBuffer 7) (JObj []),
          Part ''2'' (JStream 8) (JObj [(''filename'', JStr ''x.pdf'')])]),
       fo_signal = True \<rparr>"

section \<open>The retry delay: proofs\<close>

lemmas parse_defs =
  parseFloat_def unsigned_literal_def is_ws_def is_digit_def digits_val_def pow10_def
  exponent_part_def ToString_header_def

lemma floor_half_rat: "\<lfloor>(1 :: rat) / 2\<rfloor> = 0"
  by (rule floor_unique) simp_all

lemma getRetryMS_cases:
  "getRetryMS h =
     (case parseFloat (ToString_header h) of
        NaN \<Rightarrow> Fin 50
      | PInf \<Rightarrow> PInf
      | NInf \<Rightarrow> PInf
      | Fin r \<Rightarrow> Fin (of_int \<lfloor>\<bar>r\<bar> * 1000 + 1 / 2\<rfloor> + 50))"
  by (cases "parseFloat (ToString_header h)")
     (simp_all add: getRetryMS_def num_or_def failBufferMS_def floor_half_rat)



lemma parseFloat_point_two: "parseFloat ''0.2'' = Fin (1 / 5)"
  by (simp add: parse_defs)

lemma getRetryMS_examples:
  "getRetryMS (Some ''2'') = Fin 2050"
  "getRetryMS (Some ''-1.5'') = Fin 1550"
  "getRetryMS (Some ''1e1 seconds'') = Fin 10050"
  "getRetryMS (Some ''abc'') = Fin 50"
  "getRetryMS (Some ''Infinity'') = PInf"
  by code_simp+



section \<open>Default headers and credentials: proofs\<close>

lemma map_of_set_prop: "map_of (set_prop m k v) = (map_of m)(k \<mapsto> v)"
  by (induction m) (auto simp: fun_eq_iff)

lemma lookup_set_prop:
  "lookup_prop (set_prop m k v) k' = (if k' = k then v else lookup_prop m k')"
  by (simp add: lookup_prop_def map_of_set_prop)

lemma addDefaultHeaders_carries:
  "carries_defaults c (Fetch url (addDefaultHeaders c options))"
  by (simp add: carries_defaults_def addDefaultHeaders_def addHeaders_def spread_into_def
      lookup_set_prop Let_def)

lemma request_trace:
  "snd (request c e url options w) =
     emit [Fetch (if \<not> startsWith url (cl_baseURL c) then anvil_url c url else url)
             (addDefaultHeaders c options)] (w \<lparr> fetches := fetches w + 1 \<rparr>)"
  by (simp add: request_def Let_def)

lemma request_carries:
  "list_all (carries_defaults c) (trace w) \<Longrightarrow>
   list_all (carries_defaults c) (trace (snd (request c e url options w)))"
  by (simp add: request_trace emit_def addDefaultHeaders_carries)

lemma on_response_events:
  "on_response co r = (st, evs) \<Longrightarrow> list_all (carries_defaults c) evs"
  by (auto simp: on_response_def Let_def carries_defaults_def
      split: if_splits sum.splits)

lemma wrapRequest_fn_carries:
  assumes "\<And>w. list_all (carries_defaults c) (trace w) \<Longrightarrow>
             list_all (carries_defaults c) (trace (snd (rf w)))"
    and "list_all (carries_defaults c) (trace w)"
  shows "list_all (carries_defaults c) (trace (snd (wrapRequest_fn rf co w)))"
proof (cases "rf w")
  case (Pair a w')
  with assms(1)[OF assms(2)] have w': "list_all (carries_defaults c) (trace w')" by simp
  show ?thesis
  proof (cases a)
    case (Inl err)
    with Pair w' show ?thesis by (simp add: wrapRequest_fn_def)
  next
    case (Inr resp)
    obtain st evs where o: "on_response co resp = (st, evs)" by (cases "on_response co resp")
    from on_response_events[OF o] have "list_all (carries_defaults c) evs" .
    with Pair Inr w' o show ?thesis by (simp add: wrapRequest_fn_def emit_def)
  qed
qed

lemma carries_defaults_simps [simp]:
  "carries_defaults c (RemoveTokens k)"
  "carries_defaults c (Sleep ms)"
  "carries_defaults c (ConsoleWarn msg)"
  by (simp_all add: carries_defaults_def)

lemma limiter_err_none: "limiter_err 1 requestLimit = None"
  by (simp add: limiter_err_def requestLimit_def)

lemma throttle_Suc:
  "throttle (Suc n) e fn w =
     (case fn (acquire e w) of
        (Retry ms, w3) \<Rightarrow> throttle n e fn (emit [Sleep ms] w3)
      | (Settle out, w3) \<Rightarrow> (out, w3))"
  using limiter_err_none
  by (simp add: Let_def acquire_def split: prod.splits step.splits)

lemma acquire_carries:
  "list_all (carries_defaults c) (trace w) \<Longrightarrow>
   list_all (carries_defaults c) (trace (acquire e w))"
  by (simp add: acquire_def emit_def Let_def)

lemma throttle_carries:
  assumes fn: "\<And>w. list_all (carries_defaults c) (trace w) \<Longrightarrow>
             list_all (carries_defaults c) (trace (snd (fn w)))"
  shows "list_all (carries_defaults c) (trace w) \<Longrightarrow>
         list_all (carries_defaults c) (trace (snd (throttle n e fn w)))"
proof (induction n arbitrary: w)
  case 0
  then show ?case by simp
next
  case (Suc n)
  obtain st w3 where f: "fn (acquire e w) = (st, w3)" by (cases "fn (acquire e w)")
  from fn[OF acquire_carries[OF Suc.prems, of e]] f
  have w3: "list_all (carries_defaults c) (trace w3)" by simp
  show ?case
  proof (cases st)
    case (Retry ms)
    have "list_all (carries_defaults c) (trace (emit [Sleep ms] w3))"
      using w3 by (simp add: emit_def)
    from Suc.IH[OF this] show ?thesis
      using f Retry by (simp add: throttle_Suc del: throttle.simps)
  next
    case (Settle out)
    then show ?thesis using f w3
      by (simp add: throttle_Suc del: throttle.simps)
  qed
qed

lemma wrapRequest_carries:
  "list_all (carries_defaults c) (trace w) \<Longrightarrow>
   list_all (carries_defaults c)
     (trace (snd (wrapRequest n e (request c e url options) co w)))"
  unfolding wrapRequest_def
  by (rule throttle_carries) (rule wrapRequest_fn_carries, rule request_carries)

lemma base64_abc123: "base64 ''abc123:'' = ''YWJjMTIzOg==''"
  by (simp add: base64_def b64_char_def b64_alphabet_def)

lemma base64_def345: "base64 ''def345'' = ''ZGVmMzQ1''"
  by (simp add: base64_def b64_char_def b64_alphabet_def)

lemma test_client_constructed:
  "anvil_constructor ''Anvil API Client/2.0.0'' (Some test_options) = Inr test_client"
  by (simp add: anvil_constructor_def test_options_def test_client_def truthy_str_def
      default_baseURL_def base64_abc123)

lemma pick_trace: "snd (case x of (r, w') \<Rightarrow> (f r, w')) = snd x"
  by (cases x) simp

lemma requestREST_carries:
  "list_all (carries_defaults c) (trace w) \<Longrightarrow>
   list_all (carries_defaults c) (trace (snd (requestREST n c e url options co w)))"
  by (simp add: requestREST_def pick_trace wrapRequest_carries)

lemma requestGraphQL_carries:
  "list_all (carries_defaults c) (trace w) \<Longrightarrow>
   list_all (carries_defaults c)
     (trace (snd (requestGraphQL n c e isFile valid stringify query variables co w)))"
  by (simp add: requestGraphQL_def Let_def pick_trace wrapRequest_carries
      split: prod.splits sum.splits)

lemma fillPDF_carries:
  "list_all (carries_defaults c) (trace w) \<Longrightarrow>
   list_all (carries_defaults c) (trace (snd (fillPDF n c e stringify t payload co w)))"
  by (simp add: fillPDF_def requestREST_carries split: sum.splits)

lemma generatePDF_carries:
  "list_all (carries_defaults c) (trace w) \<Longrightarrow>
   list_all (carries_defaults c) (trace (snd (generatePDF n c e stringify payload co w)))"
  by (simp add: generatePDF_def requestREST_carries split: sum.splits)

lemma downloadDocuments_carries:
  "list_all (carries_defaults c) (trace w) \<Longrightarrow>
   list_all (carries_defaults c) (trace (snd (downloadDocuments n c e g co w)))"
  by (simp add: downloadDocuments_def requestREST_carries split: sum.splits)

lemma constructor_authHeader:
  assumes "anvil_constructor pkgUserAgent (Some opts) = Inr c"
  shows "(\<forall>t. accessToken opts = Some t \<and> t \<noteq> [] \<longrightarrow> authHeader c = ''Bearer '' @ base64 t)"
    and "\<not> truthy_str (accessToken opts) \<longrightarrow>
           (\<exists>k. apiKey opts = Some k \<and> k \<noteq> [] \<and> authHeader c = ''Basic '' @ base64 (k @ '':''))"
    and "cl_userAgent c = (case userAgent opts of None \<Rightarrow> pkgUserAgent | Some u \<Rightarrow> u)"
  using assms
  by (auto simp: anvil_constructor_def truthy_str_def split: if_splits option.splits)

text \<open>
  C9. A client built by the constructor has one authorization value: \<open>'Bearer '\<close> and
  the base64 of the access token when an access token is given, and otherwise \<open>'Basic '\<close>
  and the base64 of the API key followed by a colon. Its user agent is the configured
  one (the option, or the package default). The client is a value that no operation
  changes. \<open>_request\<close>, the only caller of \<open>fetch\<close>, sends these two values as
  \<open>Authorization\<close> and \<open>User-Agent\<close> whatever headers the caller's options hold, so every
  physical call recorded by \<open>requestREST\<close>, \<open>requestGraphQL\<close>, \<open>fillPDF\<close>,
  \<open>generatePDF\<close> and \<open>downloadDocuments\<close> carries them.
\<close>

theorem default_headers_on_every_request:
  assumes "anvil_constructor pkgUserAgent (Some opts) = Inr c"
  shows "(\<forall>t. accessToken opts = Some t \<and> t \<noteq> [] \<longrightarrow> authHeader c = ''Bearer '' @ base64 t)
    \<and> (\<not> truthy_str (accessToken opts) \<longrightarrow>
         (\<exists>k. apiKey opts = Some k \<and> k \<noteq> [] \<and> authHeader c = ''Basic '' @ base64 (k @ '':'')))
    \<and> cl_userAgent c = (case userAgent opts of None \<Rightarrow> pkgUserAgent | Some u \<Rightarrow> u)
    \<and> carries_defaults c (Fetch url (addDefaultHeaders c options))
    \<and> (list_all (carries_defaults c) (trace w) \<longrightarrow>
         list_all (carries_defaults c) (trace (snd (request c e url options w)))
       \<and> list_all (carries_defaults c) (trace (snd (requestREST n c e url options co w)))
       \<and> list_all (carries_defaults c)
           (trace (snd (requestGraphQL n c e isFile valid stringify query variables co w)))
       \<and> list_all (carries_defaults c)
           (trace (snd (fillPDF n c e stringify template payload co w)))
       \<and> list_all (carries_defaults c)
           (trace (snd (generatePDF n c e stringify payload co w)))
       \<and> list_all (carries_defaults c)
           (trace (snd (downloadDocuments n c e template co w))))"
  using constructor_authHeader[OF assms] addDefaultHeaders_carries[of c url options]
    request_carries[of c w e url options] requestREST_carries[of c w n e url options co]
    requestGraphQL_carries[of c w n e isFile valid stringify query variables co]
    fillPDF_carries[of c w n e stringify template payload co]
    generatePDF_carries[of c w n e stringify payload co]
    downloadDocuments_carries[of c w n e template co]
  by blast

lemma spoofed_fetch:
  "trace (snd (requestREST 1 test_client
           (mock_env [mockNodeFetchResponse 0 200 None (JObj [])])
           ''/test'' spoofed_options (JObj [(''dataType'', JStr ''json'')]) world0)) =
     [RemoveTokens 1,
      Fetch ''https://app.useanvil.com/test''
        \<lparr> fo_method = Some ''POST'',
          fo_headers = Some [(''Authorization'', JStr ''Basic YWJjMTIzOg==''),
                             (''User-Agent'', JStr ''Anvil API Client/2.0.0''),
                             (''Content-Type'', JStr ''application/json'')],
          fo_body = None, fo_signal = False \<rparr>]"
  by (simp add: requestREST_def wrapRequest_def throttle_Suc acquire_def wrapRequest_fn_def
      request_def mock_env_def mockNodeFetchResponse_def test_client_def spoofed_options_def
      world0_def emit_def on_response_def Let_def get_prop_def default_to_def
      addDefaultHeaders_def addHeaders_def spread_into_def startsWith_def anvil_url_def
      DATA_TYPE_STREAM_def DATA_TYPE_BUFFER_def DATA_TYPE_JSON_def lookup_prop_def
      del: throttle.simps)

theorem default_headers_on_every_request_witness:
  "anvil_constructor ''Anvil API Client/2.0.0'' (Some test_options) = Inr test_client
   \<and> authHeader test_client = ''Basic '' @ base64 (''abc123'' @ '':'')
   \<and> carries_defaults test_client
         (Fetch ''/test'' (addDefaultHeaders test_client spoofed_options))
   \<and> list_all (carries_defaults test_client)
        (trace (snd (requestREST 1 test_client
           (mock_env [mockNodeFetchResponse 0 200 None (JObj [])])
           ''/test'' spoofed_options (JObj [(''dataType'', JStr ''json'')]) world0)))"
proof -
  have w0: "list_all (carries_defaults test_client) (trace world0)"
    by (simp add: world0_def)
  have key: "apiKey test_options = Some ''abc123''" "\<not> truthy_str (accessToken test_options)"
    by (simp_all add: test_options_def truthy_str_def)
  from default_headers_on_every_request[OF test_client_constructed,
      of "''/test''" spoofed_options world0
         "mock_env [mockNodeFetchResponse 0 200 None (JObj [])]" 1
         "JObj [(''dataType'', JStr ''json'')]"] w0 key test_client_constructed
  show ?thesis by auto
qed

text \<open>
  C10. When the options hold a (non-empty) access token, the constructor succeeds and the
  authorization value is the Bearer form of the access token, whatever the API key is.
  The Basic form arises only when the access token is absent (\<open>undefined\<close> or the empty
  string, which the test \<open>accessToken ? ... : ...\<close> treats alike), and is then built from
  the API key.
\<close>

theorem accessToken_takes_precedence:
  "(\<forall>t. accessToken opts = Some t \<and> t \<noteq> [] \<longrightarrow>
       (\<exists>c. anvil_constructor pkgUserAgent (Some opts) = Inr c
            \<and> authHeader c = ''Bearer '' @ base64 t))
   \<and> (\<forall>c x. anvil_constructor pkgUserAgent (Some opts) = Inr c
            \<and> authHeader c = ''Basic '' @ x \<longrightarrow>
          \<not> truthy_str (accessToken opts)
          \<and> (\<exists>k. apiKey opts = Some k \<and> k \<noteq> [] \<and> x = base64 (k @ '':'')))"
  by (auto simp: anvil_constructor_def truthy_str_def split: if_splits option.splits)

theorem accessToken_takes_precedence_witness:
  "accessToken (test_options \<lparr> accessToken := Some ''def345'' \<rparr>) = Some ''def345''
   \<and> apiKey (test_options \<lparr> accessToken := Some ''def345'' \<rparr>) = Some ''abc123''
   \<and> (\<exists>c. anvil_constructor ''Anvil API Client/2.0.0''
              (Some (test_options \<lparr> accessToken := Some ''def345'' \<rparr>)) = Inr c
          \<and> authHeader c = ''Bearer ZGVmMzQ1'')"
  using accessToken_takes_precedence[of "test_options \<lparr> accessToken := Some ''def345'' \<rparr>"
      "''Anvil API Client/2.0.0''"]
  by (simp add: test_options_def base64_def345)

section \<open>The \<open>dataType\<close> guard and base64 uploads: proofs\<close>

lemma checked_dataType_cases:
  "checked_dataType (JObj kvs) =
     (let d = lookup_prop kvs ''dataType'' in
      if d = JUndefined
      then Inr (JObj (set_prop (spread_into [] (JObj kvs)) ''dataType'' (JStr ''buffer'')))
      else if truthy d \<and> d \<noteq> JStr ''stream'' \<and> d \<noteq> JStr ''buffer''
      then Inl (Error ''dataType must be one of: stream|buffer'')
      else Inr (JObj (set_prop (spread_into [] (JObj kvs)) ''dataType'' d)))"
  by (auto simp: checked_dataType_def get_prop_def default_to_def Let_def supportedDataTypes_def
      DATA_TYPE_STREAM_def DATA_TYPE_BUFFER_def)

lemma checked_dataType_omitted:
  "checked_dataType (JObj []) = Inr (JObj [(''dataType'', JStr ''buffer'')])"
  by (simp add: checked_dataType_cases lookup_prop_def spread_into_def)

text \<open>
  C8, as amended. For \<open>fillPDF\<close>, \<open>generatePDF\<close> and \<open>downloadDocuments\<close>, with client
  options that are an object: a truthy \<open>dataType\<close> other than \<open>'stream'\<close> and \<open>'buffer'\<close>
  makes the call throw \<open>dataType must be one of: stream|buffer\<close> with the world
  unchanged (no token taken, no physical call); an omitted \<open>dataType\<close> (also with the client
  options omitted altogether) is replaced by \<open>'buffer'\<close>; a falsy \<open>dataType\<close> other than
  \<open>undefined\<close> (\<open>null\<close>, the empty string, zero, \<open>false\<close>, \<open>NaN\<close>) passes the guard
  \<open>dataType && ...\<close> and is handed on to \<open>requestREST\<close> as it is.
\<close>

theorem unsupported_dataType_fails_fast:
  assumes "lookup_prop kvs ''dataType'' = d"
  shows "(truthy d \<and> d \<noteq> JStr ''stream'' \<and> d \<noteq> JStr ''buffer'' \<longrightarrow>
            fillPDF n c e stringify template payload (JObj kvs) w
              = (Thrown (Error ''dataType must be one of: stream|buffer''), w)
          \<and> generatePDF n c e stringify payload (JObj kvs) w
              = (Thrown (Error ''dataType must be one of: stream|buffer''), w)
          \<and> downloadDocuments n c e eid (JObj kvs) w
              = (Thrown (Error ''dataType must be one of: stream|buffer''), w))
       \<and> (d = JUndefined \<longrightarrow>
            fillPDF n c e stringify template payload (JObj kvs) w
              = requestREST n c e (''/api/v1/fill/'' @ template @ ''.pdf'')
                  (json_post stringify payload)
                  (JObj (set_prop (spread_into [] (JObj kvs)) ''dataType'' (JStr ''buffer''))) w
          \<and> generatePDF n c e stringify payload (JObj kvs) w
              = requestREST n c e ''/api/v1/generate-pdf'' (json_post stringify payload)
                  (JObj (set_prop (spread_into [] (JObj kvs)) ''dataType'' (JStr ''buffer''))) w
          \<and> downloadDocuments n c e eid (JObj kvs) w
              = requestREST n c e (''/api/document-group/'' @ eid @ ''.zip'')
                  \<lparr> fo_method = Some ''GET'', fo_headers = None, fo_body = None,
                    fo_signal = False \<rparr>
                  (JObj (set_prop (spread_into [] (JObj kvs)) ''dataType'' (JStr ''buffer''))) w)
       \<and> (\<not> truthy d \<and> d \<noteq> JUndefined \<longrightarrow>
            fillPDF n c e stringify template payload (JObj kvs) w
              = requestREST n c e (''/api/v1/fill/'' @ template @ ''.pdf'')
                  (json_post stringify payload)
                  (JObj (set_prop (spread_into [] (JObj kvs)) ''dataType'' d)) w
          \<and> generatePDF n c e stringify payload (JObj kvs) w
              = requestREST n c e ''/api/v1/generate-pdf'' (json_post stringify payload)
                  (JObj (set_prop (spread_into [] (JObj kvs)) ''dataType'' d)) w
          \<and> downloadDocuments n c e eid (JObj kvs) w
              = requestREST n c e (''/api/document-group/'' @ eid @ ''.zip'')
                  \<lparr> fo_method = Some ''GET'', fo_headers = None, fo_body = None,
                    fo_signal = False \<rparr>
                  (JObj (set_prop (spread_into [] (JObj kvs)) ''dataType'' d)) w)
       \<and> fillPDF n c e stringify template payload JUndefined w
              = requestREST n c e (''/api/v1/fill/'' @ template @ ''.pdf'')
                  (json_post stringify payload) (JObj [(''dataType'', JStr ''buffer'')]) w
       \<and> generatePDF n c e stringify payload JUndefined w
              = requestREST n c e ''/api/v1/generate-pdf'' (json_post stringify payload)
                  (JObj [(''dataType'', JStr ''buffer'')]) w
       \<and> downloadDocuments n c e eid JUndefined w
              = requestREST n c e (''/api/document-group/'' @ eid @ ''.zip'')
                  \<lparr> fo_method = Some ''GET'', fo_headers = None, fo_body = None,
                    fo_signal = False \<rparr>
                  (JObj [(''dataType'', JStr ''buffer'')]) w"
proof -
  have obj: "default_to (JObj kvs) (JObj []) = JObj kvs"
    and und: "default_to JUndefined (JObj []) = JObj []"
    by (simp_all add: default_to_def)
  have given: "checked_dataType (JObj kvs) =
      (if d = JUndefined
       then Inr (JObj (set_prop (spread_into [] (JObj kvs)) ''dataType'' (JStr ''buffer'')))
       else if truthy d \<and> d \<noteq> JStr ''stream'' \<and> d \<noteq> JStr ''buffer''
       then Inl (Error ''dataType must be one of: stream|buffer'')
       else Inr (JObj (set_prop (spread_into [] (JObj kvs)) ''dataType'' d)))"
    using assms by (simp add: checked_dataType_cases Let_def)
  show ?thesis
    by (simp add: fillPDF_def generatePDF_def downloadDocuments_def obj und
        given checked_dataType_omitted)
qed

theorem unsupported_dataType_fails_fast_witness:
  "lookup_prop [(''dataType'', JStr ''json'')] ''dataType'' = JStr ''json''
   \<and> truthy (JStr ''json'')
   \<and> downloadDocuments 1 test_client (mock_env [mockNodeFetchResponse 0 200 None JNull])
        ''docGroupEid123'' (JObj [(''dataType'', JStr ''json'')]) world0
       = (Thrown (Error ''dataType must be one of: stream|buffer''), world0)"
proof -
  have l: "lookup_prop [(''dataType'', JStr ''json'')] ''dataType'' = JStr ''json''"
    by (simp add: lookup_prop_def)
  from unsupported_dataType_fails_fast[OF l, of 1 test_client
      "mock_env [mockNodeFetchResponse 0 200 None JNull]" _ _ _ world0 "''docGroupEid123''"] l
  show ?thesis by simp
qed

lemma limiter_err_none': "limiter_err (Suc 0) requestLimit = None"
  by (simp add: limiter_err_def requestLimit_def)

lemmas run_defs =
  requestREST_def wrapRequest_def wrapRequest_fn_def request_def mock_env_def
  mockNodeFetchResponse_def test_client_def world0_def emit_def on_response_def Let_def
  get_prop_def default_to_def addDefaultHeaders_def addHeaders_def spread_into_def
  startsWith_def anvil_url_def DATA_TYPE_STREAM_def DATA_TYPE_BUFFER_def DATA_TYPE_JSON_def
  lookup_prop_def limiter_err_none' requestLimitMS_def failBufferMS_def pick_def status_js_def

text \<open>
  C8 as stated fails: \<open>null\<close> is outside \<open>{stream, buffer}\<close>, yet
  \<open>downloadDocuments\<close> with \<open>dataType: null\<close> does not throw. It makes one physical call and
  resolves, the body decoded as JSON (the default of \<open>_wrapRequest\<close> for a \<open>dataType\<close> it
  does not know).
\<close>

theorem null_dataType_reaches_the_network:
  "JNull \<notin> set supportedDataTypes
   \<and> fst (downloadDocuments 1 test_client
          (mock_env [mockNodeFetchResponse 0 200 None (JObj [(''ok'', JBool True)])])
          ''docGroupEid123'' (JObj [(''dataType'', JNull)]) world0)
       = Resolved (JObj [(''response'', JResponse 0), (''statusCode'', JNum (Fin 200)),
                         (''data'', JObj [(''ok'', JBool True)]), (''errors'', JUndefined)])
   \<and> fetches (snd (downloadDocuments 1 test_client
          (mock_env [mockNodeFetchResponse 0 200 None (JObj [(''ok'', JBool True)])])
          ''docGroupEid123'' (JObj [(''dataType'', JNull)]) world0)) = 1"
  by (simp add: downloadDocuments_def checked_dataType_def supportedDataTypes_def run_defs)

text \<open>
  C7, the failing input. With \<open>filename\<close>, \<open>mimetype\<close> and \<open>bufferize\<close> given, the
  descriptor is not converted to a buffer upload: the call ends in the \<open>TypeError\<close> of
  calling the missing static method.
\<close>

theorem bufferize_calls_missing_method:
  "prepareGraphQLBase64 (JStr ''QmFzZTY0IERhdGE='')
     (JObj [(''filename'', JStr ''omgwow.pdf''), (''mimetype'', JStr ''application/pdf''),
            (''bufferize'', JBool True)])
   = Inl (TypeError ''this._prepareGraphQLBuffer is not a function'')"
  by (simp add: prepareGraphQLBase64_def get_prop_def default_to_def lookup_prop_def Let_def)

text \<open>
  The other cases of \<open>_prepareGraphQLBase64\<close>: the two configuration errors, and the
  descriptor returned as it is when \<open>bufferize\<close> is not set.
\<close>

lemma prepareGraphQLBase64_other_cases:
  assumes "options = JObj kvs"
  shows "\<not> truthy (lookup_prop kvs ''filename'') \<Longrightarrow>
           prepareGraphQLBase64 data options
             = Inl (Error ''options.filename must be provided for Base64 upload'')"
    and "truthy (lookup_prop kvs ''filename'') \<Longrightarrow> \<not> truthy (lookup_prop kvs ''mimetype'') \<Longrightarrow>
           prepareGraphQLBase64 data options
             = Inl (Error ''options.mimetype must be provided for Base64 upload'')"
    and "truthy (lookup_prop kvs ''filename'') \<Longrightarrow> truthy (lookup_prop kvs ''mimetype'') \<Longrightarrow>
         \<not> truthy (lookup_prop kvs ''bufferize'') \<Longrightarrow>
           prepareGraphQLBase64 data options
             = Inr (JObj [(''data'', data), (''filename'', lookup_prop kvs ''filename''),
                          (''mimetype'', lookup_prop kvs ''mimetype'')])"
    and "truthy (lookup_prop kvs ''filename'') \<Longrightarrow> truthy (lookup_prop kvs ''mimetype'') \<Longrightarrow>
         truthy (lookup_prop kvs ''bufferize'') \<Longrightarrow>
           \<exists>msg. prepareGraphQLBase64 data options = Inl (TypeError msg)"
  using assms
  by (auto simp: prepareGraphQLBase64_def get_prop_def default_to_def Let_def split: js.splits)

section \<open>Remote errors: proofs\<close>

lemma map_of_spread_fold:
  "map_of (foldl (\<lambda>acc (k, x). set_prop acc k x) base kvs) = map_of base ++ map_of (rev kvs)"
proof (induction kvs arbitrary: base)
  case Nil
  then show ?case by simp
next
  case (Cons kv kvs)
  obtain k v where kv: "kv = (k, v)" by (cases kv)
  have "map_of (foldl (\<lambda>acc (k, x). set_prop acc k x) base (kv # kvs))
        = map_of (set_prop base k v) ++ map_of (rev kvs)"
    using Cons.IH[of "set_prop base k v"] kv by simp
  also have "\<dots> = map_of base ++ map_of (rev (kv # kvs))"
    by (simp add: kv map_of_set_prop fun_eq_iff map_add_def split: option.splits)
  finally show ?case .
qed

lemma map_of_rev_distinct:
  "distinct (map fst xs) \<Longrightarrow> map_of (rev xs) = map_of xs"
proof (induction xs)
  case Nil
  then show ?case by simp
next
  case (Cons kv xs)
  obtain k v where kv: "kv = (k, v)" by (cases kv)
  from Cons.prems kv have fresh: "map_of xs k = None"
    by (simp add: map_of_eq_None_iff)
  from Cons kv have ih: "map_of (rev xs) = map_of xs" by simp
  show ?case
    using fresh by (auto simp: kv ih map_add_def fun_eq_iff split: option.splits)
qed

lemma lookup_spread_distinct:
  assumes "distinct (map fst kvs)"
  shows "lookup_prop (spread_into base (JObj kvs)) k =
           (if k \<in> fst ` set kvs then lookup_prop kvs k else lookup_prop base k)"
proof -
  have m: "map_of (spread_into base (JObj kvs)) = map_of base ++ map_of kvs"
    using map_of_rev_distinct[OF assms] by (simp add: spread_into_def map_of_spread_fold)
  show ?thesis
  proof (cases "k \<in> fst ` set kvs")
    case True
    then obtain v where "map_of kvs k = Some v"
      by (cases "map_of kvs k") (simp_all add: map_of_eq_None_iff)
    with True show ?thesis by (simp add: lookup_prop_def m map_add_def)
  next
    case False
    then have "map_of kvs k = None" by (simp add: map_of_eq_None_iff)
    with False show ?thesis by (simp add: lookup_prop_def m map_add_def)
  qed
qed

lemma on_response_error_object:
  assumes "300 \<le> res_status r" "res_status r \<noteq> 429" "res_json r = Inr (JObj kvs)"
  shows "on_response co r =
          (Settle (Resolved
            (if truthy (lookup_prop kvs ''errors'')
             then JObj [(''statusCode'', status_js (res_status r)),
                        (''errors'', lookup_prop kvs ''errors'')]
             else if truthy (lookup_prop kvs ''message'')
             then JObj [(''statusCode'', status_js (res_status r)),
                        (''errors'', JArr [JObj kvs])]
             else JObj (spread_into [(''statusCode'', status_js (res_status r))] (JObj kvs)))),
           [])"
  using assms by (simp add: on_response_def get_prop_def Let_def)

lemma legacy_on_response_error_object:
  assumes "300 \<le> res_status r" "res_status r \<noteq> 429" "res_json r = Inr (JObj kvs)"
  shows "legacy_on_response co r =
          (Settle (Resolved
            (if truthy (lookup_prop kvs ''errors'')
             then JObj [(''statusCode'', status_js (res_status r)),
                        (''errors'', lookup_prop kvs ''errors'')]
             else if truthy (lookup_prop kvs ''message'')
             then JObj [(''statusCode'', status_js (res_status r)),
                        (''errors'', JArr [lookup_prop kvs ''message''])]
             else JObj (spread_into [(''statusCode'', status_js (res_status r))] (JObj kvs)))),
           [])"
  using assms by (simp add: legacy_on_response_def get_prop_def Let_def)

lemma acquire_fields [simp]:
  "fetches (acquire e w) = fetches w"
  "acquired (acquire e w) = Suc (acquired w)"
  by (simp_all add: acquire_def emit_def Let_def)

lemma wrapRequest_error_object:
  assumes "transport e (fetches w) = Inr r"
    and "300 \<le> res_status r" "res_status r \<noteq> 429" "res_json r = Inr (JObj kvs)"
  shows "fst (wrapRequest (Suc n) e (request c e url options) co w) =
           fst (case on_response (default_to co (JObj [])) r of (Settle out, evs) \<Rightarrow> (out, evs))"
    and "fetches (snd (wrapRequest (Suc n) e (request c e url options) co w)) = Suc (fetches w)"
  using assms
  by (simp_all add: wrapRequest_def throttle_Suc wrapRequest_fn_def request_def Let_def
      on_response_error_object emit_def del: throttle.simps)

lemma legacy_requestREST_error_object:
  assumes "transport e (fetches w) = Inr r"
    and "300 \<le> res_status r" "res_status r \<noteq> 429" "res_json r = Inr (JObj kvs)"
  shows "fst (legacy_requestREST (Suc n) c e url options co w) =
           fst (case legacy_on_response (default_to co (JObj [])) r of
                  (Settle out, evs) \<Rightarrow> (out, evs))"
  using assms
  by (simp_all add: legacy_requestREST_def throttle_Suc legacy_request_def Let_def
      legacy_on_response_error_object emit_def del: throttle.simps)

text \<open>
  C3, as amended. A response with a status of 300 or more other than 429, whose body
  decodes to a JSON object, makes the executor resolve (it does not reject) after that one
  physical call, with \<open>{statusCode, errors: body.errors}\<close> when \<open>body.errors\<close> is truthy;
  otherwise, when \<open>body.message\<close> is truthy, with \<open>{statusCode, errors: [body]}\<close>, the whole
  body as the single element of the list, in \<open>_wrapRequest\<close> (the earlier \<open>requestREST\<close>
  of \<open>src/index.js\<close> wraps \<open>body.message\<close> instead); otherwise with \<open>{statusCode, ...body}\<close>,
  in which every property of the body is kept and \<open>statusCode\<close> is the status unless the
  body has a property of that name.
\<close>

theorem remote_error_is_a_value:
  assumes "transport e (fetches w) = Inr r"
    and "300 \<le> res_status r" and "res_status r \<noteq> 429"
    and "res_json r = Inr (JObj kvs)"
  shows "fst (wrapRequest (Suc n) e (request c e url options) co w) =
           Resolved
            (if truthy (lookup_prop kvs ''errors'')
             then JObj [(''statusCode'', status_js (res_status r)),
                        (''errors'', lookup_prop kvs ''errors'')]
             else if truthy (lookup_prop kvs ''message'')
             then JObj [(''statusCode'', status_js (res_status r)),
                        (''errors'', JArr [JObj kvs])]
             else JObj (spread_into [(''statusCode'', status_js (res_status r))] (JObj kvs)))
       \<and> fetches (snd (wrapRequest (Suc n) e (request c e url options) co w)) = fetches w + 1
       \<and> fst (legacy_requestREST (Suc n) c e url options co w) =
           Resolved
            (if truthy (lookup_prop kvs ''errors'')
             then JObj [(''statusCode'', status_js (res_status r)),
                        (''errors'', lookup_prop kvs ''errors'')]
             else if truthy (lookup_prop kvs ''message'')
             then JObj [(''statusCode'', status_js (res_status r)),
                        (''errors'', JArr [lookup_prop kvs ''message''])]
             else JObj (spread_into [(''statusCode'', status_js (res_status r))] (JObj kvs)))
       \<and> (distinct (map fst kvs) \<longrightarrow>
            (\<forall>k. lookup_prop (spread_into [(''statusCode'', status_js (res_status r))] (JObj kvs)) k
                   = (if k \<in> fst ` set kvs then lookup_prop kvs k
                      else if k = ''statusCode'' then status_js (res_status r)
                      else JUndefined)))"
proof -
  have a: "fst (wrapRequest (Suc n) e (request c e url options) co w) =
           Resolved
            (if truthy (lookup_prop kvs ''errors'')
             then JObj [(''statusCode'', status_js (res_status r)),
                        (''errors'', lookup_prop kvs ''errors'')]
             else if truthy (lookup_prop kvs ''message'')
             then JObj [(''statusCode'', status_js (res_status r)),
                        (''errors'', JArr [JObj kvs])]
             else JObj (spread_into [(''statusCode'', status_js (res_status r))] (JObj kvs)))"
    by (simp add: wrapRequest_error_object(1)[OF assms] on_response_error_object[OF assms(2-4)])
  have b: "fetches (snd (wrapRequest (Suc n) e (request c e url options) co w)) = fetches w + 1"
    by (simp add: wrapRequest_error_object(2)[OF assms])
  have l: "fst (legacy_requestREST (Suc n) c e url options co w) =
           Resolved
            (if truthy (lookup_prop kvs ''errors'')
             then JObj [(''statusCode'', status_js (res_status r)),
                        (''errors'', lookup_prop kvs ''errors'')]
             else if truthy (lookup_prop kvs ''message'')
             then JObj [(''statusCode'', status_js (res_status r)),
                        (''errors'', JArr [lookup_prop kvs ''message''])]
             else JObj (spread_into [(''statusCode'', status_js (res_status r))] (JObj kvs)))"
    by (simp add: legacy_requestREST_error_object[OF assms]
        legacy_on_response_error_object[OF assms(2-4)])
  have d: "distinct (map fst kvs) \<longrightarrow>
            (\<forall>k. lookup_prop (spread_into [(''statusCode'', status_js (res_status r))] (JObj kvs)) k
                   = (if k \<in> fst ` set kvs then lookup_prop kvs k
                      else if k = ''statusCode'' then status_js (res_status r)
                      else JUndefined))"
    by (simp add: lookup_spread_distinct) (simp add: lookup_prop_def)
  from a b l d show ?thesis by blast
qed

text \<open>
  C3 as stated fails on \<open>_wrapRequest\<close>: for the 401 response of the test suite, whose body
  \<open>{ name: 'AuthorizationError', message: 'problem' }\<close> has a message and no errors, the
  error list is the body itself in a list, not the message in a list.
\<close>

theorem message_wraps_whole_body:
  "fst (wrapRequest 1 (mock_env [mockNodeFetchResponse 0 401 None authorization_error])
         (request test_client (mock_env [mockNodeFetchResponse 0 401 None authorization_error])
            ''/api/v1/fill/cast123.pdf'' (json_post (\<lambda>v. JStr ''{}'') (JObj [])))
         (JObj [(''dataType'', JStr ''buffer'')]) world0)
     = Resolved (JObj [(''statusCode'', JNum (Fin 401)),
                       (''errors'', JArr [JObj [(''name'', JStr ''AuthorizationError''),
                                                (''message'', JStr ''problem'')]])])
   \<and> JArr [JObj [(''name'', JStr ''AuthorizationError''), (''message'', JStr ''problem'')]]
       \<noteq> JArr [JStr ''problem'']"
  by (simp add: run_defs authorization_error_def json_post_def)

theorem remote_error_is_a_value_witness:
  "transport (mock_env [mockNodeFetchResponse 0 400 None
                 (JObj [(''errors'', JArr [JObj [(''message'', JStr ''problem'')]])])])
       (fetches world0)
     = Inr (mockNodeFetchResponse 0 400 None
             (JObj [(''errors'', JArr [JObj [(''message'', JStr ''problem'')]])]))
   \<and> fst (wrapRequest 1
           (mock_env [mockNodeFetchResponse 0 400 None
                 (JObj [(''errors'', JArr [JObj [(''message'', JStr ''problem'')]])])])
           (request test_client
              (mock_env [mockNodeFetchResponse 0 400 None
                 (JObj [(''errors'', JArr [JObj [(''message'', JStr ''problem'')]])])])
              ''/test'' spoofed_options)
           JUndefined world0)
       = Resolved (JObj [(''statusCode'', JNum (Fin 400)),
                         (''errors'', JArr [JObj [(''message'', JStr ''problem'')]])])"
proof -
  let ?body = "JObj [(''errors'', JArr [JObj [(''message'', JStr ''problem'')]])]"
  let ?r = "mockNodeFetchResponse 0 400 None ?body"
  have t: "transport (mock_env [?r]) (fetches world0) = Inr ?r"
    by (simp add: mock_env_def world0_def)
  have s: "300 \<le> res_status ?r" "res_status ?r \<noteq> 429"
    "res_json ?r = Inr (JObj [(''errors'', JArr [JObj [(''message'', JStr ''problem'')]])])"
    by (simp_all add: mockNodeFetchResponse_def)
  from remote_error_is_a_value[OF t s, of 0 test_client "''/test''" spoofed_options JUndefined] t
  show ?thesis
    by (simp add: lookup_prop_def status_js_def mockNodeFetchResponse_def)
qed

section \<open>The retry loop: proofs\<close>

lemma getRetryMS_point_two: "getRetryMS (Some ''0.2'') = Fin 250"
proof -
  have "\<lfloor>(401 :: rat) / 2\<rfloor> = 200"
    by (rule floor_unique) simp_all
  then show ?thesis
    by (simp add: getRetryMS_cases ToString_header_def parseFloat_point_two)
qed

lemma on_response_429:
  "res_status r = 429 \<Longrightarrow>
   on_response co r = (Retry (getRetryMS (res_headers_get r ''retry-after'')), [])"
  by (simp add: on_response_def)

lemma on_response_settles:
  "res_status r \<noteq> 429 \<Longrightarrow> \<exists>out evs. on_response co r = (Settle out, evs)"
  by (auto simp: on_response_def Let_def split: sum.splits)

lemma on_response_retry_only_429:
  "on_response co r = (Retry ms, evs) \<Longrightarrow> res_status r = 429"
  using on_response_settles[of r co] by (cases "res_status r = 429") auto

lemma attempt_world:
  "request c e url options (acquire e w) =
     (transport e (fetches w),
      w \<lparr> acquired := Suc (acquired w), fetches := Suc (fetches w),
          trace := trace w @ attempt_events c e url options (acquired w) \<rparr>)"
  by (simp add: request_def acquire_def emit_def attempt_events_def Let_def)

lemma throttle_429_step:
  assumes "transport e (fetches w) = Inr r" and "res_status r = 429"
  shows "throttle (Suc m) e (wrapRequest_fn (request c e url options) co) w =
         throttle m e (wrapRequest_fn (request c e url options) co)
           (w \<lparr> acquired := Suc (acquired w), fetches := Suc (fetches w),
                trace := trace w @ attempt_events c e url options (acquired w)
                           @ [Sleep (retry_delay e (fetches w))] \<rparr>)"
  using assms
  by (simp add: throttle_Suc wrapRequest_fn_def attempt_world on_response_429 emit_def
      retry_delay_def del: throttle.simps)

lemma throttle_final_step:
  assumes "transport e (fetches w) = Inr r" and "on_response co r = (Settle out, evs)"
  shows "throttle (Suc m) e (wrapRequest_fn (request c e url options) co) w =
         (out, w \<lparr> acquired := Suc (acquired w), fetches := Suc (fetches w),
                   trace := trace w @ attempt_events c e url options (acquired w) @ evs \<rparr>)"
  using assms
  by (simp add: throttle_Suc wrapRequest_fn_def attempt_world emit_def del: throttle.simps)

lemma throttle_failed_step:
  assumes "transport e (fetches w) = Inl err"
  shows "throttle (Suc m) e (wrapRequest_fn (request c e url options) co) w =
         (Rejected err, w \<lparr> acquired := Suc (acquired w), fetches := Suc (fetches w),
                   trace := trace w @ attempt_events c e url options (acquired w) \<rparr>)"
  using assms
  by (simp add: throttle_Suc wrapRequest_fn_def attempt_world del: throttle.simps)

lemma throttled_run:
  assumes "\<forall>k<n. \<exists>r'. transport e (fetches w + k) = Inr r' \<and> res_status r' = 429"
    and "transport e (fetches w + n) = Inr r"
    and "on_response co r = (Settle out, evs)"
  shows "throttle (Suc n + m) e (wrapRequest_fn (request c e url options) co) w =
         (out, w \<lparr> acquired := acquired w + n + 1, fetches := fetches w + n + 1,
                   trace := trace w @ retried_events c e url options (acquired w) (fetches w) n
                              @ attempt_events c e url options (acquired w + n) @ evs \<rparr>)"
  using assms
proof (induction n arbitrary: w)
  case 0
  then show ?case
    using throttle_final_step[of e w r co out evs m c url options] by simp
next
  case (Suc n)
  from Suc.prems(1) obtain r0 where r0: "transport e (fetches w) = Inr r0" "res_status r0 = 429"
    by force
  let ?w1 = "w \<lparr> acquired := Suc (acquired w), fetches := Suc (fetches w),
                trace := trace w @ attempt_events c e url options (acquired w)
                           @ [Sleep (retry_delay e (fetches w))] \<rparr>"
  have step: "throttle (Suc (Suc n) + m) e (wrapRequest_fn (request c e url options) co) w =
              throttle (Suc n + m) e (wrapRequest_fn (request c e url options) co) ?w1"
    using throttle_429_step[OF r0, of "Suc n + m" c url options co] by simp
  have a: "\<forall>k<n. \<exists>r'. transport e (fetches ?w1 + k) = Inr r' \<and> res_status r' = 429"
  proof (intro allI impI)
    fix k assume "k < n"
    then have "Suc k < Suc n" by simp
    with Suc.prems(1)[rule_format, of "Suc k"]
    show "\<exists>r'. transport e (fetches ?w1 + k) = Inr r' \<and> res_status r' = 429"
      by simp
  qed
  have b: "transport e (fetches ?w1 + n) = Inr r"
    using Suc.prems(2) by simp
  from Suc.IH[OF a b Suc.prems(3)] step show ?case
    by simp
qed

lemma throttle_resolved_not_429:
  "throttle m e (wrapRequest_fn (request c e url options) co) w = (Resolved v, w') \<Longrightarrow>
   \<exists>k r evs. transport e k = Inr r \<and> res_status r \<noteq> 429
              \<and> on_response co r = (Settle (Resolved v), evs)"
proof (induction m arbitrary: w)
  case 0
  then show ?case by simp
next
  case (Suc m)
  show ?case
  proof (cases "transport e (fetches w)")
    case (Inl err)
    from throttle_failed_step[OF Inl, of m c url options co] Suc.prems show ?thesis by simp
  next
    case (Inr r)
    obtain st evs where o: "on_response co r = (st, evs)" by (cases "on_response co r")
    show ?thesis
    proof (cases st)
      case (Retry ms)
      with o have "res_status r = 429" by (auto dest: on_response_retry_only_429)
      from throttle_429_step[OF Inr this, of m c url options co] Suc.prems Suc.IH
      show ?thesis by simp
    next
      case (Settle out)
      with o have s: "on_response co r = (Settle out, evs)" by simp
      from throttle_final_step[OF Inr s, of m c url options] Suc.prems
      have "out = Resolved v" by simp
      moreover have "res_status r \<noteq> 429"
        using s on_response_429[of r co] by auto
      ultimately show ?thesis using Inr s by blast
    qed
  qed
qed

text \<open>
  C1. Let the next \<open>n\<close> physical calls be answered with status 429 and the call after
  them with another status. Then, for any \<open>n\<close> (there is no maximum retry count), the
  executor makes exactly \<open>n + 1\<close> physical calls and takes exactly \<open>n + 1\<close> tokens; after
  each 429 it sleeps the delay computed by \<open>getRetryMS\<close> from that response's
  \<open>retry-after\<close> header and then re-enters the rate limiter, taking a fresh token before
  the next physical call; and it settles with what the body of \<open>_wrapRequest\<close> makes of
  the final response. Whenever the executor resolves, however many attempts it is given,
  the value comes from a response whose status is not 429. On a 429 response the body of
  \<open>_wrapRequest\<close> does nothing but call \<open>retry\<close> with the computed delay.
\<close>

theorem throttled_requests_are_retried:
  "((\<forall>k<n. \<exists>r'. transport e (fetches w + k) = Inr r' \<and> res_status r' = 429)
      \<and> transport e (fetches w + n) = Inr r \<and> res_status r \<noteq> 429 \<longrightarrow>
      (\<exists>out evs.
          on_response (default_to co (JObj [])) r = (Settle out, evs)
        \<and> wrapRequest (Suc n + m) e (request c e url options) co w =
            (out, w \<lparr> acquired := acquired w + n + 1, fetches := fetches w + n + 1,
                      trace := trace w
                        @ retried_events c e url options (acquired w) (fetches w) n
                        @ attempt_events c e url options (acquired w + n) @ evs \<rparr>)))
   \<and> (\<forall>v w'. wrapRequest m e (request c e url options) co w = (Resolved v, w') \<longrightarrow>
         (\<exists>k r' evs. transport e k = Inr r' \<and> res_status r' \<noteq> 429
             \<and> on_response (default_to co (JObj [])) r' = (Settle (Resolved v), evs)))
   \<and> (res_status r = 429 \<longrightarrow>
         on_response (default_to co (JObj [])) r
           = (Retry (getRetryMS (res_headers_get r ''retry-after'')), []))"
proof (intro conjI impI allI)
  assume h: "(\<forall>k<n. \<exists>r'. transport e (fetches w + k) = Inr r' \<and> res_status r' = 429)
      \<and> transport e (fetches w + n) = Inr r \<and> res_status r \<noteq> 429"
  then obtain out evs where o: "on_response (default_to co (JObj [])) r = (Settle out, evs)"
    using on_response_settles by blast
  from h have "\<forall>k<n. \<exists>r'. transport e (fetches w + k) = Inr r' \<and> res_status r' = 429"
    and "transport e (fetches w + n) = Inr r" by simp_all
  from throttled_run[OF this o, of m c url options] o
  show "\<exists>out evs.
          on_response (default_to co (JObj [])) r = (Settle out, evs)
        \<and> wrapRequest (Suc n + m) e (request c e url options) co w =
            (out, w \<lparr> acquired := acquired w + n + 1, fetches := fetches w + n + 1,
                      trace := trace w
                        @ retried_events c e url options (acquired w) (fetches w) n
                        @ attempt_events c e url options (acquired w + n) @ evs \<rparr>)"
    unfolding wrapRequest_def by blast
next
  fix v w'
  assume "wrapRequest m e (request c e url options) co w = (Resolved v, w')"
  then show "\<exists>k r' evs. transport e k = Inr r' \<and> res_status r' \<noteq> 429
             \<and> on_response (default_to co (JObj [])) r' = (Settle (Resolved v), evs)"
    unfolding wrapRequest_def by (rule throttle_resolved_not_429)
next
  assume "res_status r = 429"
  then show "on_response (default_to co (JObj [])) r
           = (Retry (getRetryMS (res_headers_get r ''retry-after'')), [])"
    by (rule on_response_429)
qed

text \<open>
  The retry test of the suite: the transport answers 429 with \<open>retry-after: "0.2"\<close>, then
  200. Exactly two physical calls are made, 250 ms apart at least, each after taking a
  token, and the payload of the 200 response is returned.
\<close>

theorem throttled_requests_are_retried_witness:
  "wrapRequest 2
     (mock_env [mockNodeFetchResponse 0 429 (Some ''0.2'') JNull,
                mockNodeFetchResponse 1 200 None (JObj [(''result'', JStr ''ok'')])])
     (request test_client
        (mock_env [mockNodeFetchResponse 0 429 (Some ''0.2'') JNull,
                   mockNodeFetchResponse 1 200 None (JObj [(''result'', JStr ''ok'')])])
        ''/test'' post_options)
     (JObj [(''dataType'', JStr ''json'')]) world0
   = (Resolved (JObj [(''response'', JResponse 1),
                      (''data'', JObj [(''result'', JStr ''ok'')]),
                      (''statusCode'', JNum (Fin 200))]),
      \<lparr> acquired = 2, fetches = 2,
        trace = [RemoveTokens 1,
                 Fetch ''https://app.useanvil.com/test'' (addDefaultHeaders test_client post_options),
                 Sleep (Fin 250),
                 RemoveTokens 1,
                 Fetch ''https://app.useanvil.com/test'' (addDefaultHeaders test_client post_options)] \<rparr>)"
proof -
  let ?r0 = "mockNodeFetchResponse 0 429 (Some ''0.2'') JNull"
  let ?r1 = "mockNodeFetchResponse 1 200 None (JObj [(''result'', JStr ''ok'')])"
  let ?e = "mock_env [?r0, ?r1]"
  let ?co = "JObj [(''dataType'', JStr ''json'')]"
  have hyp: "(\<forall>k<1. \<exists>r'. transport ?e (fetches world0 + k) = Inr r' \<and> res_status r' = 429)
      \<and> transport ?e (fetches world0 + 1) = Inr ?r1 \<and> res_status ?r1 \<noteq> 429"
    by (simp add: mock_env_def world0_def mockNodeFetchResponse_def)
  have settle: "on_response (default_to ?co (JObj [])) ?r1 =
      (Settle (Resolved (JObj [(''response'', JResponse 1),
                      (''data'', JObj [(''result'', JStr ''ok'')]),
                      (''statusCode'', JNum (Fin 200))])), [])"
    by (simp add: on_response_def default_to_def get_prop_def lookup_prop_def Let_def
        mockNodeFetchResponse_def DATA_TYPE_STREAM_def DATA_TYPE_BUFFER_def DATA_TYPE_JSON_def
        status_js_def)
  have delay: "retry_delay ?e 0 = Fin 250"
    by (simp add: retry_delay_def mock_env_def mockNodeFetchResponse_def getRetryMS_point_two)
  have events: "attempt_events test_client ?e ''/test'' post_options k =
      [RemoveTokens 1,
       Fetch ''https://app.useanvil.com/test'' (addDefaultHeaders test_client post_options)]" for k
    by (simp add: attempt_events_def mock_env_def test_client_def startsWith_def anvil_url_def)
  from throttled_requests_are_retried[of 1 ?e world0 ?r1 ?co 0 test_client "''/test''" post_options]
    hyp
  obtain out evs where
    o: "on_response (default_to ?co (JObj [])) ?r1 = (Settle out, evs)"
    and run: "wrapRequest (Suc 1 + 0) ?e (request test_client ?e ''/test'' post_options) ?co world0 =
            (out, world0 \<lparr> acquired := acquired world0 + 1 + 1, fetches := fetches world0 + 1 + 1,
                      trace := trace world0
                        @ retried_events test_client ?e ''/test'' post_options
                            (acquired world0) (fetches world0) 1
                        @ attempt_events test_client ?e ''/test'' post_options (acquired world0 + 1)
                        @ evs \<rparr>)"
    by blast
  from o settle have out: "out = Resolved (JObj [(''response'', JResponse 1),
                      (''data'', JObj [(''result'', JStr ''ok'')]),
                      (''statusCode'', JNum (Fin 200))])" and evs: "evs = []"
    by simp_all
  have two: "Suc 1 + 0 = (2 :: nat)" by simp
  from run show ?thesis
    unfolding two out evs
    by (simp add: world0_def events[simplified] delay[simplified])
qed

section \<open>GraphQL requests: proofs\<close>

lemma addFile_not_Nil [simp]: "addFile files paths file \<noteq> []"
  by (cases files) (auto split: if_splits)

lemma pairs_of_Cons: "pairs_of ((f, ps) # child) = {f} \<times> set ps \<union> pairs_of child"
  by (auto simp: pairs_of_def)

lemma pairs_of_Nil [simp]: "pairs_of [] = {}"
  by (simp add: pairs_of_def)

lemma add_all_step:
  "add_all files ((f, ps) # child) = add_all (addFile files ps f) child"
  by (simp add: add_all_def)

lemma add_all_Nil [simp]: "add_all files [] = files"
  by (simp add: add_all_def)

lemma add_all_eq_Nil: "add_all files child = [] \<longleftrightarrow> files = [] \<and> child = []"
proof (induction child arbitrary: files)
  case Nil
  then show ?case by simp
next
  case (Cons a child)
  obtain f ps where a: "a = (f, ps)" by (cases a)
  show ?case by (simp add: a add_all_step Cons.IH)
qed

lemma extract_no_files:
  "snd (extractFiles isFile v path) = [] \<Longrightarrow> fst (extractFiles isFile v path) = v"
  "snd (extract_items isFile xs prefix i files) = [] \<Longrightarrow>
     fst (extract_items isFile xs prefix i files) = xs \<and> files = []"
  "snd (extract_props isFile kvs prefix files) = [] \<Longrightarrow>
     fst (extract_props isFile kvs prefix files) = kvs \<and> files = []"
  by (induction isFile v path and isFile xs prefix i files and isFile kvs prefix files
      rule: extractFiles_extract_items_extract_props.induct)
     (auto split: prod.splits if_splits simp: add_all_eq_Nil)

lemma no_leaves_no_files:
  "(snd (extractFiles isFile v path) = []) = (file_leaves isFile v path = [])"
  "(snd (extract_items isFile xs prefix i files) = []) =
     (files = [] \<and> item_leaves isFile xs prefix i = [])"
  "(snd (extract_props isFile kvs prefix files) = []) =
     (files = [] \<and> prop_leaves isFile kvs prefix = [])"
  by (induction isFile v path and isFile xs prefix i files and isFile kvs prefix files
      rule: extractFiles_extract_items_extract_props.induct)
     (auto split: prod.splits if_splits simp: add_all_eq_Nil)

lemma addFile_keys: "fst ` set (addFile files ps f) = insert f (fst ` set files)"
proof (induction files)
  case Nil
  then show ?case by simp
next
  case (Cons a files)
  obtain g qs where a: "a = (g, qs)" by (cases a)
  show ?case
  proof (cases "g = f")
    case True
    then show ?thesis by (simp add: a insert_absorb)
  next
    case False
    then show ?thesis using Cons.IH by (simp add: a insert_commute)
  qed
qed

lemma addFile_distinct:
  "distinct (map fst files) \<Longrightarrow> distinct (map fst (addFile files ps f))"
proof (induction files)
  case Nil
  then show ?case by simp
next
  case (Cons a files)
  obtain g qs where a: "a = (g, qs)" by (cases a)
  show ?case
  proof (cases "g = f")
    case True
    with Cons.prems show ?thesis by (simp add: a)
  next
    case False
    from Cons.prems have "g \<notin> fst ` set files" and d: "distinct (map fst files)"
      by (simp_all add: a)
    with False have "g \<notin> fst ` set (addFile files ps f)"
      by (simp add: addFile_keys)
    with False Cons.IH[OF d] show ?thesis by (simp add: a)
  qed
qed

lemma addFile_pairs: "pairs_of (addFile files ps f) = pairs_of files \<union> {f} \<times> set ps"
proof (induction files)
  case Nil
  then show ?case by (simp add: pairs_of_Cons)
next
  case (Cons a files)
  obtain g qs where a: "a = (g, qs)" by (cases a)
  show ?case
  proof (cases "g = f")
    case True
    then show ?thesis by (auto simp: a pairs_of_Cons)
  next
    case False
    then show ?thesis using Cons.IH by (auto simp: a pairs_of_Cons)
  qed
qed

lemma add_all_distinct:
  "distinct (map fst files) \<Longrightarrow> distinct (map fst (add_all files child))"
proof (induction child arbitrary: files)
  case Nil
  then show ?case by simp
next
  case (Cons a child)
  obtain f ps where a: "a = (f, ps)" by (cases a)
  show ?case using Cons by (simp add: a add_all_step addFile_distinct)
qed

lemma add_all_pairs: "pairs_of (add_all files child) = pairs_of files \<union> pairs_of child"
proof (induction child arbitrary: files)
  case Nil
  then show ?case by simp
next
  case (Cons a child)
  obtain f ps where a: "a = (f, ps)" by (cases a)
  show ?case by (auto simp: a add_all_step Cons.IH addFile_pairs pairs_of_Cons)
qed

lemma extract_distinct:
  "distinct (map fst (snd (extractFiles isFile v path)))"
  "distinct (map fst files) \<Longrightarrow>
     distinct (map fst (snd (extract_items isFile xs prefix i files)))"
  "distinct (map fst files) \<Longrightarrow>
     distinct (map fst (snd (extract_props isFile kvs prefix files)))"
  by (induction isFile v path and isFile xs prefix i files and isFile kvs prefix files
      rule: extractFiles_extract_items_extract_props.induct)
     (auto split: prod.splits if_splits simp: add_all_distinct)

lemma snd_extractFiles_JArr:
  "snd (extractFiles isFile (JArr xs) path) =
     (if isFile (JArr xs) then [(JArr xs, [path])]
      else snd (extract_items isFile xs (path_prefix path) 0 []))"
  by (simp split: prod.splits)

lemma snd_extractFiles_JObj:
  "snd (extractFiles isFile (JObj kvs) path) =
     (if isFile (JObj kvs) then [(JObj kvs, [path])]
      else snd (extract_props isFile kvs (path_prefix path) []))"
  by (simp split: prod.splits)

lemma snd_extract_items_Cons:
  "snd (extract_items isFile (x # xs) prefix i files) =
     snd (extract_items isFile xs prefix (Suc i)
            (add_all files (snd (extractFiles isFile x (prefix @ string_of_nat i)))))"
  by (simp split: prod.splits)

lemma snd_extract_props_Cons:
  "snd (extract_props isFile ((k, x) # kvs) prefix files) =
     snd (extract_props isFile kvs prefix
            (add_all files (snd (extractFiles isFile x (prefix @ k)))))"
  by (simp split: prod.splits)

lemma extract_pairs:
  "pairs_of (snd (extractFiles isFile v path)) = set (file_leaves isFile v path)"
  "pairs_of (snd (extract_items isFile xs prefix i files)) =
     pairs_of files \<union> set (item_leaves isFile xs prefix i)"
  "pairs_of (snd (extract_props isFile kvs prefix files)) =
     pairs_of files \<union> set (prop_leaves isFile kvs prefix)"
proof (induction isFile v path and isFile xs prefix i files and isFile kvs prefix files
      rule: extractFiles_extract_items_extract_props.induct)
  case (1 isFile xs path)
  then show ?case by (simp add: snd_extractFiles_JArr pairs_of_Cons del: extractFiles.simps)
next
  case (2 isFile kvs path)
  then show ?case by (simp add: snd_extractFiles_JObj pairs_of_Cons del: extractFiles.simps)
next
  case (5 isFile x xs prefix i files)
  let ?e = "extractFiles isFile x (prefix @ string_of_nat i)"
  have "(fst ?e, snd ?e) = ?e" by simp
  from 5(2)[OF this] 5(1) show ?case
    by (simp add: snd_extract_items_Cons add_all_pairs Un_assoc del: extract_items.simps)
next
  case (7 isFile k x kvs prefix files)
  let ?e = "extractFiles isFile x (prefix @ k)"
  have "(fst ?e, snd ?e) = ?e" by simp
  from 7(2)[OF this] 7(1) show ?case
    by (simp add: snd_extract_props_Cons add_all_pairs Un_assoc del: extract_props.simps)
qed (simp_all add: pairs_of_Cons)

lemma digits_val_snoc: "digits_val (ds @ [c]) = 10 * digits_val ds + (of_char c - 48)"
  by (simp add: digits_val_def)

lemma digits_val_string_of_nat: "digits_val (string_of_nat n) = n"
proof (induction n rule: string_of_nat.induct)
  case (1 n)
  show ?case
  proof (cases "n < 10")
    case True
    then show ?thesis
      by (subst string_of_nat.simps) (simp add: digits_val_def)
  next
    case False
    have "n mod 10 < 10" by simp
    then have "(48 + n mod 10) mod 256 = 48 + n mod 10" by simp
    with False 1 show ?thesis
      by (subst string_of_nat.simps) (simp add: digits_val_snoc)
  qed
qed

lemma string_of_nat_inj: "string_of_nat a = string_of_nat b \<Longrightarrow> a = b"
  by (metis digits_val_string_of_nat)

lemma set_prop_fresh: "k \<notin> fst ` set m \<Longrightarrow> set_prop m k v = m @ [(k, v)]"
  by (induction m) auto

lemma graphql_map_fold:
  "fst ` set m \<subseteq> string_of_nat ` {..i} \<Longrightarrow>
   foldl (\<lambda>(i, m) (file, paths).
            (i + 1, set_prop m (string_of_nat (i + 1)) (JArr (map JStr paths))))
     (i, m) files =
   (i + length files,
    m @ zip (map string_of_nat [Suc i..<Suc (i + length files)]) (map paths_js files))"
proof (induction files arbitrary: i m)
  case Nil
  then show ?case by simp
next
  case (Cons a files)
  obtain f ps where a: "a = (f, ps)" by (cases a)
  have fresh: "string_of_nat (Suc i) \<notin> fst ` set m"
  proof
    assume "string_of_nat (Suc i) \<in> fst ` set m"
    with Cons.prems obtain j where "j \<le> i" "string_of_nat (Suc i) = string_of_nat j" by auto
    then show False using string_of_nat_inj by fastforce
  qed
  let ?m' = "m @ [(string_of_nat (Suc i), JArr (map JStr ps))]"
  have keys: "fst ` set ?m' \<subseteq> string_of_nat ` {..Suc i}"
    using Cons.prems by (auto simp: atMost_Suc)
  define rest where "rest = [Suc (Suc i)..<Suc (Suc i + length files)]"
  have up: "[Suc i..<Suc (i + length (a # files))] = Suc i # rest"
    by (subst upt_rec) (simp add: rest_def del: upt_Suc)
  have "foldl (\<lambda>(i, m) (file, paths).
            (i + 1, set_prop m (string_of_nat (i + 1)) (JArr (map JStr paths))))
          (i, m) (a # files) =
        foldl (\<lambda>(i, m) (file, paths).
            (i + 1, set_prop m (string_of_nat (i + 1)) (JArr (map JStr paths))))
          (Suc i, ?m') files"
    by (simp add: a set_prop_fresh[OF fresh])
  also have "\<dots> = (Suc i + length files, ?m' @ zip (map string_of_nat rest) (map paths_js files))"
    unfolding rest_def by (rule Cons.IH[OF keys])
  also have "\<dots> = (i + length (a # files),
      m @ zip (map string_of_nat (Suc i # rest)) (map paths_js (a # files)))"
    by (simp add: a paths_js_def)
  finally show ?case unfolding up .
qed

lemma graphql_map_closed:
  "graphql_map filesMap =
     zip (map string_of_nat [1..<Suc (length filesMap)]) (map paths_js filesMap)"
  using graphql_map_fold[of "[]" 0 filesMap] by (simp add: graphql_map_def del: upt_Suc)

lemma append_files_closed:
  "append_files i files form = Inr form' \<Longrightarrow>
   form' = form @ map2 (\<lambda>k entry. Part (string_of_nat k) (upload_file (fst entry))
                                    (upload_options (fst entry)))
                    [Suc i..<Suc (i + length files)] files"
proof (induction files arbitrary: i form)
  case Nil
  then show ?case by simp
next
  case (Cons a files)
  obtain f ps where a: "a = (f, ps)" by (cases a)
  define rest where "rest = [Suc (Suc i)..<Suc (Suc i + length files)]"
  have up: "[Suc i..<Suc (i + length (a # files))] = Suc i # rest"
    by (subst upt_rec) (simp add: rest_def del: upt_Suc)
  from Cons.prems have
    "append_files (Suc i) files
       (form @ [Part (string_of_nat (Suc i)) (upload_file f) (upload_options f)]) = Inr form'"
    by (auto simp: a upload_file_def upload_options_def Let_def split: js.splits if_splits)
  from Cons.IH[OF this, folded rest_def] show ?case
    unfolding up by (simp add: a)
qed

lemma append_files_succeeds:
  "\<forall>entry \<in> set files. upload_file (fst entry) \<noteq> JUndefined \<and> upload_file (fst entry) \<noteq> JNull \<Longrightarrow>
   \<exists>form'. append_files i files form = Inr form'"
proof (induction files arbitrary: i form)
  case Nil
  then show ?case by simp
next
  case (Cons a files)
  obtain f ps where a: "a = (f, ps)" by (cases a)
  from Cons.prems have ok: "upload_file f \<noteq> JUndefined" "upload_file f \<noteq> JNull"
    and rest: "\<forall>entry \<in> set files. upload_file (fst entry) \<noteq> JUndefined \<and> upload_file (fst entry) \<noteq> JNull"
    by (simp_all add: a)
  have "append_files i (a # files) form =
        append_files (Suc i) files
          (form @ [Part (string_of_nat (Suc i)) (upload_file f) (upload_options f)])"
    using ok by (auto simp: a upload_file_def upload_options_def Let_def split: js.splits)
  with Cons.IH[OF rest] show ?case by simp
qed

lemma requestGraphQL_unfold:
  assumes "extractFiles isFile
             (JObj [(''query'', query), (''variables'', default_to variables (JObj []))]) []
           = (clone, filesMap)"
  shows "requestGraphQL n c e isFile valid stringify query variables co w =
     (if \<not> valid (JObj [(''query'', query), (''variables'', default_to variables (JObj []))])
      then (Rejected (Error ''Invalid File schema detected''), w)
      else (case graphql_options stringify (stringify clone) filesMap of
              Inl err \<Rightarrow> (Rejected err, w)
            | Inr options \<Rightarrow>
                (case wrapRequest n e (request c e ''/graphql'' options) co w of
                   (r, w') \<Rightarrow> (pick [''statusCode'', ''data'', ''errors''] r, w'))))"
  using assms
  by (simp add: requestGraphQL_def Let_def split: sum.splits del: extractFiles.simps)

text \<open>
  C6. Whenever the validator rejects the operation, \<open>requestGraphQL\<close> rejects with
  \<open>Invalid File schema detected\<close> and leaves the world as it was: no token is taken and no
  call reaches the transport. This is proved for every validator. With the validation
  pass as the specification describes it, variables that contain a partially file-like
  value (an object with some but not all of \<open>data\<close>, \<open>filename\<close>, \<open>mimetype\<close>) are
  rejected in this way.
\<close>

theorem invalid_schema_rejected_before_io:
  "(\<not> valid (JObj [(''query'', query), (''variables'', default_to variables (JObj []))]) \<longrightarrow>
      requestGraphQL n c e isFile valid stringify query variables co w
        = (Rejected (Error ''Invalid File schema detected''), w))
   \<and> (contains_partial (default_to variables (JObj [])) \<longrightarrow>
      requestGraphQL n c e isFile spec_schemaIsValid stringify query variables co w
        = (Rejected (Error ''Invalid File schema detected''), w))"
proof -
  obtain clone filesMap where
    x: "extractFiles isFile
          (JObj [(''query'', query), (''variables'', default_to variables (JObj []))]) []
        = (clone, filesMap)"
    by (cases "extractFiles isFile
          (JObj [(''query'', query), (''variables'', default_to variables (JObj []))]) []")
  have "contains_partial (default_to variables (JObj [])) \<Longrightarrow>
        \<not> spec_schemaIsValid
            (JObj [(''query'', query), (''variables'', default_to variables (JObj []))])"
    by (simp add: spec_schemaIsValid_def)
  then show ?thesis
    by (auto simp: requestGraphQL_unfold[OF x])
qed

theorem invalid_schema_rejected_before_io_witness:
  "contains_partial
     (default_to (JObj [(''file'', JObj [(''data'', JStr ''...''), (''filename'', JStr ''x'')])])
        (JObj []))
   \<and> requestGraphQL 3 test_client (mock_env [mockNodeFetchResponse 0 200 None JNull])
        is_upload spec_schemaIsValid (\<lambda>v. v) (JStr ''mutation'')
        (JObj [(''file'', JObj [(''data'', JStr ''...''), (''filename'', JStr ''x'')])])
        (JObj [(''dataType'', JStr ''json'')]) world0
      = (Rejected (Error ''Invalid File schema detected''), world0)
   \<and> fetches world0 = 0 \<and> trace world0 = []"
proof -
  have p: "contains_partial
     (default_to (JObj [(''file'', JObj [(''data'', JStr ''...''), (''filename'', JStr ''x'')])])
        (JObj []))"
    by (simp add: default_to_def partially_file_like_def)
  from invalid_schema_rejected_before_io[of "\<lambda>v. True" "JStr ''mutation''"
      "JObj [(''file'', JObj [(''data'', JStr ''...''), (''filename'', JStr ''x'')])]"
      3 test_client "mock_env [mockNodeFetchResponse 0 200 None JNull]" is_upload "\<lambda>v. v"
      "JObj [(''dataType'', JStr ''json'')]" world0] p
  show ?thesis by (simp add: world0_def)
qed

text \<open>
  C5. When the operation references no upload value (the file map is then empty),
  \<open>requestGraphQL\<close> either rejects because the validator rejects the operation, or it
  hands \<open>_request\<close> the options with method \<open>POST\<close>, the single header
  \<open>Content-Type: application/json\<close>, the body \<open>JSON.stringify({ query, variables })\<close> and no
  abort signal: a plain text body, not a multipart form.
\<close>

theorem no_files_plain_json:
  assumes "file_leaves isFile
             (JObj [(''query'', query), (''variables'', default_to variables (JObj []))]) [] = []"
  shows "snd (extractFiles isFile
               (JObj [(''query'', query), (''variables'', default_to variables (JObj []))]) [])
           = []
     \<and> requestGraphQL n c e isFile valid stringify query variables co w =
        (if \<not> valid (JObj [(''query'', query), (''variables'', default_to variables (JObj []))])
         then (Rejected (Error ''Invalid File schema detected''), w)
         else (case wrapRequest n e
                     (request c e ''/graphql''
                        \<lparr> fo_method = Some ''POST'',
                          fo_headers = Some [(''Content-Type'', JStr ''application/json'')],
                          fo_body = Some (BodyText (stringify
                             (JObj [(''query'', query),
                                    (''variables'', default_to variables (JObj []))]))),
                          fo_signal = False \<rparr>)
                     co w of
                 (r, w') \<Rightarrow> (pick [''statusCode'', ''data'', ''errors''] r, w')))"
proof -
  let ?op = "JObj [(''query'', query), (''variables'', default_to variables (JObj []))]"
  from assms have empty: "snd (extractFiles isFile ?op []) = []"
    by (simp only: no_leaves_no_files(1))
  then have same: "fst (extractFiles isFile ?op []) = ?op"
    by (rule extract_no_files(1))
  from empty same have x: "extractFiles isFile ?op [] = (?op, [])"
    by (metis prod.collapse)
  show ?thesis
    using empty by (simp add: requestGraphQL_unfold[OF x] graphql_options_def
        del: extractFiles.simps)
qed

theorem no_files_plain_json_witness:
  "file_leaves is_upload
     (JObj [(''query'', JObj [(''foo'', JStr ''bar'')]),
            (''variables'', default_to (JObj [(''baz'', JStr ''bop'')]) (JObj []))]) [] = []
   \<and> requestGraphQL 1 test_client
        (mock_env [mockNodeFetchResponse 0 200 None (JObj [(''data'', JStr ''ok'')])])
        is_upload (\<lambda>v. True) (\<lambda>v. v)
        (JObj [(''foo'', JStr ''bar'')]) (JObj [(''baz'', JStr ''bop'')])
        (JObj [(''dataType'', JStr ''json'')]) world0
      = (Resolved (JObj [(''statusCode'', JNum (Fin 200)),
                         (''data'', JObj [(''data'', JStr ''ok'')]),
                         (''errors'', JUndefined)]),
         \<lparr> acquired = 1, fetches = 1,
           trace = [RemoveTokens 1,
                    Fetch ''https://app.useanvil.com/graphql''
                      \<lparr> fo_method = Some ''POST'',
                        fo_headers = Some [(''Content-Type'', JStr ''application/json''),
                                           (''User-Agent'', JStr ''Anvil API Client/2.0.0''),
                                           (''Authorization'', JStr ''Basic YWJjMTIzOg=='')],
                        fo_body = Some (BodyText
                          (JObj [(''query'', JObj [(''foo'', JStr ''bar'')]),
                                 (''variables'', JObj [(''baz'', JStr ''bop'')])])),
                        fo_signal = False \<rparr>] \<rparr>)"
proof -
  have leaves: "file_leaves is_upload
     (JObj [(''query'', JObj [(''foo'', JStr ''bar'')]),
            (''variables'', default_to (JObj [(''baz'', JStr ''bop'')]) (JObj []))]) [] = []"
    by (simp add: is_upload_def default_to_def)
  from no_files_plain_json[OF leaves, of 1 test_client
      "mock_env [mockNodeFetchResponse 0 200 None (JObj [(''data'', JStr ''ok'')])]"
      "\<lambda>v. True" "\<lambda>v. v" "JObj [(''dataType'', JStr ''json'')]" world0] leaves
  show ?thesis
    by (simp add: run_defs del: file_leaves.simps)
qed

lemma same_key_same_paths:
  "distinct (map fst xs) \<Longrightarrow> (k, v1) \<in> set xs \<Longrightarrow> (k, v2) \<in> set xs \<Longrightarrow> v1 = v2"
  by (rule eq_key_imp_eq_value)

lemma shared_file_one_entry:
  assumes d: "distinct (map fst filesMap)"
    and p: "pairs_of filesMap = leaves"
    and l1: "(file, p1) \<in> leaves" and l2: "(file, p2) \<in> leaves"
  shows "\<exists>i<length filesMap. fst (filesMap ! i) = file
           \<and> p1 \<in> set (snd (filesMap ! i)) \<and> p2 \<in> set (snd (filesMap ! i))
           \<and> (\<forall>j<length filesMap. fst (filesMap ! j) = file \<longrightarrow> j = i)"
proof -
  from l1 l2 p obtain ps1 ps2 where
    e1: "(file, ps1) \<in> set filesMap" "p1 \<in> set ps1" and
    e2: "(file, ps2) \<in> set filesMap" "p2 \<in> set ps2"
    unfolding pairs_of_def by blast
  from same_key_same_paths[OF d e1(1) e2(1)] have same: "ps1 = ps2" .
  from e1(1) obtain i where i: "i < length filesMap" "filesMap ! i = (file, ps1)"
    by (auto simp: in_set_conv_nth)
  have uniq: "\<forall>j<length filesMap. fst (filesMap ! j) = file \<longrightarrow> j = i"
  proof (intro allI impI)
    fix j assume j: "j < length filesMap" "fst (filesMap ! j) = file"
    with i have same_key: "map fst filesMap ! j = map fst filesMap ! i" by simp
    have "(map fst filesMap ! j = map fst filesMap ! i) = (j = i)"
      using d i(1) j(1) nth_eq_iff_index_eq[of "map fst filesMap" j i] by simp
    with same_key show "j = i" by simp
  qed
  have here: "i < length filesMap \<and> fst (filesMap ! i) = file
           \<and> p1 \<in> set (snd (filesMap ! i)) \<and> p2 \<in> set (snd (filesMap ! i))"
    using i e1(2) e2(2) same by simp
  from here uniq have "i < length filesMap \<and> fst (filesMap ! i) = file
           \<and> p1 \<in> set (snd (filesMap ! i)) \<and> p2 \<in> set (snd (filesMap ! i))
           \<and> (\<forall>j<length filesMap. fst (filesMap ! j) = file \<longrightarrow> j = i)"
    by blast
  then show ?thesis by (rule exI)
qed

text \<open>
  C4. When the file map extracted from the operation is not empty and the encoding
  succeeds, the body is a multipart form whose parts are, in order: \<open>operations\<close>; \<open>map\<close>,
  the JSON of the object that maps the decimal strings of 1, 2, ... to the path lists of
  the file-map entries in insertion order; and one part per entry, named by the same
  index, holding the entry's file. The indices are distinct keys, the file map has one
  entry per upload value, and an upload value referenced at two paths has both paths in
  its one entry, at one index. These are the options that \<open>requestGraphQL\<close> sends.
  (The encoding fails only when an \<open>UploadWithOptions\<close> wrapper holds \<open>null\<close> or
  \<open>undefined\<close>.)
\<close>

theorem multipart_map_indexes_files:
  assumes x: "extractFiles isFile
             (JObj [(''query'', query), (''variables'', default_to variables (JObj []))]) []
           = (clone, filesMap)"
    and ne: "filesMap \<noteq> []"
    and ok: "graphql_options stringify (stringify clone) filesMap = Inr options"
  shows "options =
      \<lparr> fo_method = Some ''POST'', fo_headers = Some [],
        fo_body = Some (BodyForm
          ([Part ''operations'' (stringify clone) JUndefined,
            Part ''map''
              (stringify (JObj (zip (map string_of_nat [1..<Suc (length filesMap)])
                                    (map paths_js filesMap))))
              JUndefined]
           @ map2 (\<lambda>k entry. Part (string_of_nat k) (upload_file (fst entry))
                                 (upload_options (fst entry)))
               [1..<Suc (length filesMap)] filesMap)),
        fo_signal = True \<rparr>
    \<and> distinct (map string_of_nat [1..<Suc (length filesMap)])
    \<and> distinct (map fst filesMap)
    \<and> (\<forall>file p1 p2.
          (file, p1) \<in> set (file_leaves isFile
             (JObj [(''query'', query), (''variables'', default_to variables (JObj []))]) [])
        \<and> (file, p2) \<in> set (file_leaves isFile
             (JObj [(''query'', query), (''variables'', default_to variables (JObj []))]) [])
        \<longrightarrow> (\<exists>i<length filesMap. fst (filesMap ! i) = file
               \<and> p1 \<in> set (snd (filesMap ! i)) \<and> p2 \<in> set (snd (filesMap ! i))
               \<and> (\<forall>j<length filesMap. fst (filesMap ! j) = file \<longrightarrow> j = i)))
    \<and> requestGraphQL n c e isFile valid stringify query variables co w =
        (if \<not> valid (JObj [(''query'', query), (''variables'', default_to variables (JObj []))])
         then (Rejected (Error ''Invalid File schema detected''), w)
         else (case wrapRequest n e (request c e ''/graphql'' options) co w of
                 (r, w') \<Rightarrow> (pick [''statusCode'', ''data'', ''errors''] r, w')))"
proof -
  let ?op = "JObj [(''query'', query), (''variables'', default_to variables (JObj []))]"
  from ok ne obtain form' where
    f: "append_files 0 filesMap
          [Part ''operations'' (stringify clone) JUndefined,
           Part ''map'' (stringify (JObj (graphql_map filesMap))) JUndefined] = Inr form'"
    and o: "options = \<lparr> fo_method = Some ''POST'', fo_headers = Some [],
                       fo_body = Some (BodyForm form'), fo_signal = True \<rparr>"
    by (auto simp: graphql_options_def Let_def split: sum.splits)
  from append_files_closed[OF f] o
  have a: "options =
      \<lparr> fo_method = Some ''POST'', fo_headers = Some [],
        fo_body = Some (BodyForm
          ([Part ''operations'' (stringify clone) JUndefined,
            Part ''map''
              (stringify (JObj (zip (map string_of_nat [1..<Suc (length filesMap)])
                                    (map paths_js filesMap))))
              JUndefined]
           @ map2 (\<lambda>k entry. Part (string_of_nat k) (upload_file (fst entry))
                                 (upload_options (fst entry)))
               [1..<Suc (length filesMap)] filesMap)),
        fo_signal = True \<rparr>"
    by (simp add: graphql_map_closed del: upt_Suc)
  have b: "distinct (map string_of_nat [1..<Suc (length filesMap)])"
    by (simp add: distinct_map inj_on_def string_of_nat_inj del: upt_Suc)
  have c: "distinct (map fst filesMap)"
    using extract_distinct(1)[of isFile ?op "[]"] x by simp
  have pairs: "pairs_of filesMap = set (file_leaves isFile ?op [])"
    using extract_pairs(1)[of isFile ?op "[]"] x by simp
  have d: "\<forall>file p1 p2.
          (file, p1) \<in> set (file_leaves isFile ?op [])
        \<and> (file, p2) \<in> set (file_leaves isFile ?op [])
        \<longrightarrow> (\<exists>i<length filesMap. fst (filesMap ! i) = file
               \<and> p1 \<in> set (snd (filesMap ! i)) \<and> p2 \<in> set (snd (filesMap ! i))
               \<and> (\<forall>j<length filesMap. fst (filesMap ! j) = file \<longrightarrow> j = i))"
    using shared_file_one_entry[OF c pairs] by blast
  have r: "requestGraphQL n c e isFile valid stringify query variables co w =
        (if \<not> valid ?op
         then (Rejected (Error ''Invalid File schema detected''), w)
         else (case wrapRequest n e (request c e ''/graphql'' options) co w of
                 (r, w') \<Rightarrow> (pick [''statusCode'', ''data'', ''errors''] r, w')))"
    by (simp add: requestGraphQL_unfold[OF x] ok)
  from a b c d r show ?thesis by blast
qed

lemma string_of_nat_digits [simp]:
  "string_of_nat 0 = ''0''" "string_of_nat (Suc 0) = ''1''" "string_of_nat 1 = ''1''"
  "string_of_nat 2 = ''2''" "string_of_nat (Suc (Suc 0)) = ''2''"
  by code_simp+

lemma shared_extract:
  "extractFiles is_upload
     (JObj [(''query'', JStr ''mutation''),
            (''variables'', default_to shared_variables (JObj []))]) []
   = (shared_clone, shared_files)"
  by (simp add: shared_variables_def shared_clone_def shared_files_def is_upload_def
      default_to_def path_prefix_def add_all_def)

lemma shared_leaves:
  "file_leaves is_upload
     (JObj [(''query'', JStr ''mutation''),
            (''variables'', default_to shared_variables (JObj []))]) []
   = [(JBuffer 7, ''variables.a.file''), (JBuffer 7, ''variables.b.0''),
      (JUploadWithOptions 9 (JStream 8) (JObj [(''filename'', JStr ''x.pdf'')]),
       ''variables.b.1'')]"
  by (simp add: shared_variables_def is_upload_def default_to_def path_prefix_def)

lemma shared_options:
  "graphql_options (\<lambda>v. v) shared_clone shared_files = Inr shared_request"
  by (simp add: graphql_options_def shared_files_def shared_request_def graphql_map_def
      Let_def numeral_2_eq_2)

theorem multipart_map_indexes_files_witness:
  "extractFiles is_upload
     (JObj [(''query'', JStr ''mutation''),
            (''variables'', default_to shared_variables (JObj []))]) []
     = (shared_clone, shared_files)
   \<and> shared_files \<noteq> []
   \<and> graphql_options (\<lambda>v. v) shared_clone shared_files = Inr shared_request
   \<and> distinct (map fst shared_files)
   \<and> (\<exists>i<length shared_files. fst (shared_files ! i) = JBuffer 7
         \<and> ''variables.a.file'' \<in> set (snd (shared_files ! i))
         \<and> ''variables.b.0'' \<in> set (snd (shared_files ! i))
         \<and> (\<forall>j<length shared_files. fst (shared_files ! j) = JBuffer 7 \<longrightarrow> j = i))
   \<and> requestGraphQL 1 test_client
        (mock_env [mockNodeFetchResponse 0 200 None (JObj [(''data'', JStr ''ok'')])])
        is_upload (\<lambda>v. True) (\<lambda>v. v) (JStr ''mutation'') shared_variables
        (JObj [(''dataType'', JStr ''json'')]) world0
      = (case wrapRequest 1
                (mock_env [mockNodeFetchResponse 0 200 None (JObj [(''data'', JStr ''ok'')])])
                (request test_client
                   (mock_env [mockNodeFetchResponse 0 200 None (JObj [(''data'', JStr ''ok'')])])
                   ''/graphql'' shared_request)
                (JObj [(''dataType'', JStr ''json'')]) world0 of
           (r, w') \<Rightarrow> (pick [''statusCode'', ''data'', ''errors''] r, w'))"
proof -
  have ne: "shared_files \<noteq> []" by (simp add: shared_files_def)
  have l1: "(JBuffer 7, ''variables.a.file'') \<in> set (file_leaves is_upload
     (JObj [(''query'', JStr ''mutation''),
            (''variables'', default_to shared_variables (JObj []))]) [])"
    and l2: "(JBuffer 7, ''variables.b.0'') \<in> set (file_leaves is_upload
     (JObj [(''query'', JStr ''mutation''),
            (''variables'', default_to shared_variables (JObj []))]) [])"
    unfolding shared_leaves by simp_all
  from multipart_map_indexes_files[OF shared_extract ne shared_options, of 1 test_client
      "mock_env [mockNodeFetchResponse 0 200 None (JObj [(''data'', JStr ''ok'')])]"
      "\<lambda>v. True" "JObj [(''dataType'', JStr ''json'')]" world0]
  have d: "distinct (map fst shared_files)"
    and s: "\<forall>file p1 p2.
          (file, p1) \<in> set (file_leaves is_upload
             (JObj [(''query'', JStr ''mutation''),
                    (''variables'', default_to shared_variables (JObj []))]) [])
        \<and> (file, p2) \<in> set (file_leaves is_upload
             (JObj [(''query'', JStr ''mutation''),
                    (''variables'', default_to shared_variables (JObj []))]) [])
        \<longrightarrow> (\<exists>i<length shared_files. fst (shared_files ! i) = file
               \<and> p1 \<in> set (snd (shared_files ! i)) \<and> p2 \<in> set (snd (shared_files ! i))
               \<and> (\<forall>j<length shared_files. fst (shared_files ! j) = file \<longrightarrow> j = i))"
    and r: "requestGraphQL 1 test_client
        (mock_env [mockNodeFetchResponse 0 200 None (JObj [(''data'', JStr ''ok'')])])
        is_upload (\<lambda>v. True) (\<lambda>v. v) (JStr ''mutation'') shared_variables
        (JObj [(''dataType'', JStr ''json'')]) world0
      = (case wrapRequest 1
                (mock_env [mockNodeFetchResponse 0 200 None (JObj [(''data'', JStr ''ok'')])])
                (request test_client
                   (mock_env [mockNodeFetchResponse 0 200 None (JObj [(''data'', JStr ''ok'')])])
                   ''/graphql'' shared_request)
                (JObj [(''dataType'', JStr ''json'')]) world0 of
           (r, w') \<Rightarrow> (pick [''statusCode'', ''data'', ''errors''] r, w'))"
    by simp_all
  from s l1 l2 have one: "\<exists>i<length shared_files. fst (shared_files ! i) = JBuffer 7
         \<and> ''variables.a.file'' \<in> set (snd (shared_files ! i))
         \<and> ''variables.b.0'' \<in> set (snd (shared_files ! i))
         \<and> (\<forall>j<length shared_files. fst (shared_files ! j) = JBuffer 7 \<longrightarrow> j = i)"
    by blast
  from shared_extract ne shared_options d one r show ?thesis by blast
qed

end
